theory Spec2Isabelle
  imports Main "HOL-Library.AList"
begin

section \<open>Blokus rule engine: data model\<close>

text \<open>
  The server (\<^verbatim>\<open>src/server/index.js\<close>) adjudicates a tile-placement game whose state is
  replayed from a log of moves. Coordinates are JavaScript numbers; the model takes the
  integer ones, which is what the piece table, the board and the client's anchors use.
  A cell is the pair \<open>(x, y)\<close>. The source keys its occupancy containers with the string
  \<^verbatim>\<open>`${x},${y}`\<close>, which is injective on integer pairs, so the model keys them with the
  pair itself.
\<close>

type_synonym Cell = "int \<times> int"

text \<open>
  Colours. The source uses strings, but its per-colour containers
  (\<^verbatim>\<open>playerCells\<close>, \<^verbatim>\<open>usedPieces\<close>, \<^verbatim>\<open>playerSets\<close>, \<^verbatim>\<open>START_CORNERS\<close>) have exactly these
  four keys; \<^verbatim>\<open>getGameState\<close> throws on a player of any other colour, so no game with
  another colour ever accepts a move.
\<close>

datatype Color = Blue | Yellow | Red | Green

subsection \<open>Piece catalog\<close>

text \<open>\<^verbatim>\<open>PIECES\<close>, in the source's key order (the order of \<^verbatim>\<open>Object.keys\<close>).\<close>

definition PIECES :: "(string \<times> Cell list) list" where
  "PIECES =
    [(''I1'', [(0,0)]),
     (''I2'', [(0,0),(1,0)]),
     (''I3'', [(0,0),(1,0),(2,0)]),
     (''I4'', [(0,0),(1,0),(2,0),(3,0)]),
     (''I5'', [(0,0),(1,0),(2,0),(3,0),(4,0)]),
     (''V3'', [(0,0),(0,1),(1,0)]),
     (''L4'', [(0,0),(0,1),(0,2),(1,0)]),
     (''Z4'', [(0,0),(1,0),(1,1),(2,1)]),
     (''O4'', [(0,0),(1,0),(0,1),(1,1)]),
     (''T5'', [(0,0),(1,0),(2,0),(1,1),(1,2)]),
     (''L5'', [(0,0),(0,1),(0,2),(0,3),(1,0)]),
     (''Y5'', [(0,0),(1,0),(2,0),(3,0),(1,1)]),
     (''N5'', [(0,0),(1,0),(1,1),(2,1),(3,1)]),
     (''Z5'', [(0,0),(1,0),(2,0),(2,1),(3,1)]),
     (''U5'', [(0,0),(2,0),(0,1),(1,1),(2,1)]),
     (''V5'', [(0,0),(0,1),(0,2),(1,0),(2,0)]),
     (''W5'', [(0,0),(1,0),(1,1),(2,1),(2,2)]),
     (''X5'', [(1,0),(0,1),(1,1),(2,1),(1,2)]),
     (''P5'', [(0,0),(1,0),(0,1),(1,1),(0,2)]),
     (''F5'', [(1,0),(0,1),(1,1),(1,2),(2,2)]),
     (''T4'', [(0,0),(1,0),(2,0),(1,1)])]"

definition pieceKeys :: "string list" where
  "pieceKeys = map fst PIECES"

definition sizeOf :: "string \<Rightarrow> int" where
  "sizeOf k = (case map_of PIECES k of Some cs \<Rightarrow> int (length cs) | None \<Rightarrow> 0)"

subsection \<open>Geometry\<close>

text \<open>
  JavaScript's \<^verbatim>\<open>%\<close> truncates towards zero: the result has the sign of the dividend.
\<close>

definition js_rem :: "int \<Rightarrow> int \<Rightarrow> int" where
  "js_rem a b = sgn a * (\<bar>a\<bar> mod \<bar>b\<bar>)"

text \<open>The body of the \<^verbatim>\<open>for\<close> loop of \<^verbatim>\<open>rotate\<close>, run \<open>n\<close> times.\<close>

fun rotate_loop :: "nat \<Rightarrow> Cell \<Rightarrow> Cell" where
  "rotate_loop 0 p = p"
| "rotate_loop (Suc n) (x, y) = rotate_loop n (y, - x)"

text \<open>
  \<^verbatim>\<open>rotate(point, times)\<close>; named \<open>rotate_point\<close> because \<open>rotate\<close> is a list function
  of HOL. The loop counter runs from 0 below the reduced count, which lies in 0..3.
\<close>

definition rotate_point :: "Cell \<Rightarrow> int \<Rightarrow> Cell" where
  "rotate_point point n = rotate_loop (nat (js_rem (js_rem n 4 + 4) 4)) point"

definition flip :: "Cell \<Rightarrow> Cell" where
  "flip point = (- fst point, snd point)"

text \<open>\<^verbatim>\<open>Math.min(...xs)\<close> on a non-empty argument list.\<close>

fun math_min :: "int list \<Rightarrow> int" where
  "math_min [] = 0"
| "math_min (x # xs) = fold min xs x"

text \<open>
  \<^verbatim>\<open>normalize\<close> (\<open>normalize\<close> is a HOL constant, hence the suffix). On the empty
  list \<^verbatim>\<open>Math.min()\<close> is \<^verbatim>\<open>Infinity\<close>, but the following \<^verbatim>\<open>map\<close> has nothing to
  subtract it from and returns the empty list; \<open>math_min []\<close> is therefore never used
  in a result.
\<close>

definition normalize_cells :: "Cell list \<Rightarrow> Cell list" where
  "normalize_cells cells =
     (let minX = math_min (map fst cells);
          minY = math_min (map snd cells)
      in map (\<lambda>(x, y). (x - minX, y - minY)) cells)"

definition transformShape :: "Cell list \<Rightarrow> int \<Rightarrow> bool \<Rightarrow> Cell list" where
  "transformShape shape rotationTimes flipped =
     (let cells = shape;
          cells = (if flipped then map flip cells else cells);
          cells = map (\<lambda>p. rotate_point p rotationTimes) cells
      in normalize_cells cells)"

definition translate :: "Cell list \<Rightarrow> int \<Rightarrow> int \<Rightarrow> Cell list" where
  "translate cells dx dy = map (\<lambda>(x, y). (x + dx, y + dy)) cells"

subsection \<open>The transform as the specification words it\<close>

definition mirror_spec :: "Cell \<Rightarrow> Cell" where
  "mirror_spec = (\<lambda>(x, y). (- x, y))"

definition rot90_spec :: "Cell \<Rightarrow> Cell" where
  "rot90_spec = (\<lambda>(x, y). (y, - x))"

definition normalize_spec :: "Cell list \<Rightarrow> Cell list" where
  "normalize_spec cells =
     map (\<lambda>(x, y). (x - Min (fst ` set cells), y - Min (snd ` set cells))) cells"

text \<open>
  Mirror first, then the quarter turn \<open>r mod 4\<close> times, then normalisation. Here \<open>mod\<close> is
  the mathematical one (result in 0..3 for every sign of \<open>r\<close>), which is what the
  specification's modulo, add 4, modulo again computes.
\<close>

definition transform_spec :: "Cell list \<Rightarrow> int \<Rightarrow> bool \<Rightarrow> Cell list" where
  "transform_spec shape r flipped =
     normalize_spec
       (map (rot90_spec ^^ nat (r mod 4))
          (if flipped then map mirror_spec shape else shape))"


section \<open>Stored state and its projection\<close>

datatype Status = Active | Finished

text \<open>
  A row of the \<^verbatim>\<open>moves\<close> table. A pass is inserted with \<^verbatim>\<open>piece_key\<close>, \<^verbatim>\<open>rotation\<close>,
  \<^verbatim>\<open>flipped\<close> and \<^verbatim>\<open>cells\<close> left NULL.
\<close>

record Move =
  player_color :: Color
  piece_key :: "string option"
  rotation :: "int option"
  flipped :: "bool option"
  cells :: "Cell list option"
  passed :: bool
  turn_number :: nat

text \<open>
  One game as the database holds it: its \<^verbatim>\<open>games\<close> row, the colours of its \<^verbatim>\<open>players\<close>
  rows in \<^verbatim>\<open>order_index\<close> order, and its \<^verbatim>\<open>moves\<close> rows in \<^verbatim>\<open>turn_number\<close> order
  (a move is inserted with turn number \<^verbatim>\<open>moves.length + 1\<close>, so this is insertion order).
\<close>

record Game =
  status :: Status
  board_size :: int
  next_player_index :: nat
  players :: "Color list"
  moves :: "Move list"

definition DEFAULT_COLORS :: "Color list" where
  "DEFAULT_COLORS = [Blue, Yellow, Red, Green]"

fun START_CORNERS :: "Color \<Rightarrow> Cell" where
  "START_CORNERS Blue = (0, 0)"
| "START_CORNERS Yellow = (19, 0)"
| "START_CORNERS Red = (0, 19)"
| "START_CORNERS Green = (19, 19)"

text \<open>
  \<^verbatim>\<open>POST /api/games\<close>: the \<^verbatim>\<open>games\<close> row takes the column defaults (status
  \<^verbatim>\<open>'active'\<close>, board size 20, next player 0); the players are the request's list when it
  is a non-empty array, the default colours otherwise.
\<close>

definition createGame :: "Color list option \<Rightarrow> Game" where
  "createGame ps =
     \<lparr>status = Active, board_size = 20, next_player_index = 0,
      players = (case ps of None \<Rightarrow> DEFAULT_COLORS
                 | Some l \<Rightarrow> if length l > 0 then l else DEFAULT_COLORS),
      moves = []\<rparr>"

subsection \<open>Occupancy\<close>

text \<open>
  A JavaScript \<^verbatim>\<open>Map\<close> is an association list in insertion order: \<^verbatim>\<open>set\<close> overwrites the
  value of a key that is present and appends a new key otherwise, \<^verbatim>\<open>has\<close> tests the keys
  and \<^verbatim>\<open>size\<close> is the number of entries.
\<close>

type_synonym Occupancy = "(Cell \<times> Color) list"

definition map_has :: "Occupancy \<Rightarrow> Cell \<Rightarrow> bool" where
  "map_has occ k = (k \<in> fst ` set occ)"

text \<open>
  The inner loop shared by \<^verbatim>\<open>getGameState\<close> and the place handler: every cell of a
  placement goes into the global map and into its colour's set.
\<close>

fun claim_cells ::
  "Color \<Rightarrow> Cell list \<Rightarrow> Occupancy \<times> (Color \<Rightarrow> Cell set) \<Rightarrow> Occupancy \<times> (Color \<Rightarrow> Cell set)" where
  "claim_cells c [] acc = acc"
| "claim_cells c (xy # rest) (occ, sets) =
     claim_cells c rest (AList.update xy c occ, sets(c := insert xy (sets c)))"

text \<open>The loop over the moves in the place handler (\<^verbatim>\<open>occupied\<close>, \<^verbatim>\<open>playerSets\<close>).\<close>

fun placeSets ::
  "Move list \<Rightarrow> Occupancy \<times> (Color \<Rightarrow> Cell set) \<Rightarrow> Occupancy \<times> (Color \<Rightarrow> Cell set)" where
  "placeSets [] acc = acc"
| "placeSets (m # ms) acc =
     placeSets ms
       (case cells m of
          Some cs \<Rightarrow> if \<not> passed m then claim_cells (player_color m) cs acc else acc
        | None \<Rightarrow> acc)"

text \<open>
  The loop over the moves in \<^verbatim>\<open>getGameState\<close> (\<^verbatim>\<open>occupied\<close>, \<^verbatim>\<open>playerCells\<close>,
  \<^verbatim>\<open>usedPieces\<close>). The source also tracks \<^verbatim>\<open>lastPlayerIndex\<close>, which it never reads.
\<close>

record Projection =
  occupied :: Occupancy
  playerCells :: "Color \<Rightarrow> Cell set"
  usedPieces :: "Color \<Rightarrow> string option set"

fun project :: "Move list \<Rightarrow> Projection \<Rightarrow> Projection" where
  "project [] acc = acc"
| "project (m # ms) acc =
     project ms
       (case cells m of
          Some cs \<Rightarrow>
            if \<not> passed m then
              (let (occ, sets) = claim_cells (player_color m) cs (occupied acc, playerCells acc)
               in \<lparr>occupied = occ, playerCells = sets,
                   usedPieces = (usedPieces acc)
                     (player_color m := insert (piece_key m) (usedPieces acc (player_color m)))\<rparr>)
            else acc
        | None \<Rightarrow> acc)"

definition empty_projection :: Projection where
  "empty_projection = \<lparr>occupied = [], playerCells = (\<lambda>_. {}), usedPieces = (\<lambda>_. {})\<rparr>"

subsection \<open>End detection and scoring\<close>

text \<open>
  \<^verbatim>\<open>moveRows.slice(-n)\<close>: the last \<open>n\<close> rows, all of them when there are fewer; and all of
  them for \<open>n = 0\<close>, since \<^verbatim>\<open>slice(-0)\<close> is \<^verbatim>\<open>slice(0)\<close>.
\<close>

definition slice_last :: "nat \<Rightarrow> 'a list \<Rightarrow> 'a list" where
  "slice_last n xs = (if n = 0 then xs else drop (length xs - n) xs)"

definition everyonePassed :: "Color list \<Rightarrow> Move list \<Rightarrow> bool" where
  "everyonePassed playerRows moveRows =
     (let recentPasses = slice_last (length playerRows) moveRows
      in length recentPasses = length playerRows \<and> list_all passed recentPasses)"

definition remPieces :: "string option set \<Rightarrow> string list" where
  "remPieces used = filter (\<lambda>k. Some k \<notin> used) pieceKeys"

definition score_of :: "string option set \<Rightarrow> int" where
  "score_of used =
     (let remSquares = foldl (\<lambda>a k. a + sizeOf k) 0 (remPieces used);
          score = - remSquares;
          score = (if length (remPieces used) = 0 then score + 15 else score);
          score = (if Some ''I1'' \<in> used \<and> length (remPieces used) = 0 then score + 5 else score)
      in score)"

text \<open>What \<^verbatim>\<open>getGameState\<close> returns for a game that exists.\<close>

record GameState =
  gs_status :: Status
  gs_board_size :: int
  gs_next_player_index :: nat
  gs_players :: "Color list"
  gs_moves :: "Move list"
  remaining :: "Color \<rightharpoonup> string list"
  scores :: "Color \<rightharpoonup> int"
  occupiedCount :: nat

definition stateOf :: "Game \<Rightarrow> GameState" where
  "stateOf g =
     (let pr = project (moves g) empty_projection;
          st = (if everyonePassed (players g) (moves g) then Finished else status g)
      in \<lparr>gs_status = st,
          gs_board_size = board_size g,
          gs_next_player_index = next_player_index g,
          gs_players = players g,
          gs_moves = moves g,
          remaining = fold (\<lambda>p r. r(p \<mapsto> remPieces (usedPieces pr p))) (players g) Map.empty,
          scores = (if st = Finished
                    then fold (\<lambda>p r. r(p \<mapsto> score_of (usedPieces pr p))) (players g) Map.empty
                    else Map.empty),
          occupiedCount = length (occupied pr)\<rparr>)"

text \<open>\<^verbatim>\<open>getGameState\<close>: \<^verbatim>\<open>null\<close> when the \<^verbatim>\<open>games\<close> row does not exist.\<close>

definition getGameState :: "Game option \<Rightarrow> GameState option" where
  "getGameState row = map_option stateOf row"


section \<open>The move validator and the handlers\<close>

datatype Error =
    invalid_piece
  | invalid_position
  | not_found
  | not_your_turn
  | out_of_bounds
  | overlap
  | first_move_must_cover_corner
  | must_touch_same_color_corner
  | cannot_touch_same_color_edge
  | failed_to_place
  | failed_to_skip

definition isWithinBoard :: "Cell list \<Rightarrow> int \<Rightarrow> bool" where
  "isWithinBoard cs sz = list_all (\<lambda>(x, y). x \<ge> 0 \<and> y \<ge> 0 \<and> x < sz \<and> y < sz) cs"

definition hasCornerContact :: "Cell list \<Rightarrow> Cell set \<Rightarrow> bool" where
  "hasCornerContact cs playerSet =
     list_ex (\<lambda>(x, y).
        list_ex (\<lambda>c. c \<in> playerSet) [(x - 1, y - 1), (x - 1, y + 1), (x + 1, y - 1), (x + 1, y + 1)])
      cs"

definition hasEdgeContact :: "Cell list \<Rightarrow> Cell set \<Rightarrow> bool" where
  "hasEdgeContact cs playerSet =
     list_ex (\<lambda>(x, y).
        list_ex (\<lambda>c. c \<in> playerSet) [(x - 1, y), (x + 1, y), (x, y - 1), (x, y + 1)])
      cs"

text \<open>
  \<^verbatim>\<open>PIECES[piece_key]\<close> reads through the prototype chain: a key of the table gives its
  shape, a property name of \<^verbatim>\<open>Object.prototype\<close> gives a truthy value that is not an
  array, any other string gives \<^verbatim>\<open>undefined\<close>.
\<close>

datatype Lookup = Own "Cell list" | Inherited | Absent

definition object_prototype_keys :: "string list" where
  "object_prototype_keys =
     [''constructor'', ''__proto__'', ''hasOwnProperty'', ''isPrototypeOf'',
      ''propertyIsEnumerable'', ''toLocaleString'', ''toString'', ''valueOf'',
      ''__defineGetter__'', ''__defineSetter__'', ''__lookupGetter__'', ''__lookupSetter__'']"

definition PIECES_lookup :: "string \<Rightarrow> Lookup" where
  "PIECES_lookup k =
     (case map_of PIECES k of
        Some shape \<Rightarrow> Own shape
      | None \<Rightarrow> if k \<in> set object_prototype_keys then Inherited else Absent)"

text \<open>\<^verbatim>\<open>rotation|0\<close>: conversion to a signed 32-bit integer.\<close>

definition to_int32 :: "int \<Rightarrow> int" where
  "to_int32 r = (r + 2147483648) mod 4294967296 - 2147483648"

text \<open>
  The body of a place request. \<^verbatim>\<open>position\<close> is \<open>None\<close> when it is missing or one of its
  coordinates is not a number.
\<close>

record PlaceReq =
  req_player_color :: Color
  req_piece_key :: string
  req_rotation :: int
  req_flipped :: bool
  req_position :: "(int \<times> int) option"

text \<open>
  \<^verbatim>\<open>POST /api/games/:id/place\<close>. The first argument is the result of looking the game up;
  the result is the game after the two writes (the inserted move, the advanced turn
  pointer), and the response is \<open>stateOf\<close> of it. An exception inside the handler
  (\<^verbatim>\<open>players[i]\<close> undefined, \<^verbatim>\<open>shape.map\<close> on an inherited property) is caught and
  answered with \<^verbatim>\<open>failed_to_place\<close>.
\<close>

definition place :: "Game option \<Rightarrow> PlaceReq \<Rightarrow> Error + Game" where
  "place row req =
     (case PIECES_lookup (req_piece_key req) of
        Absent \<Rightarrow> Inl invalid_piece
      | found \<Rightarrow>
     (case req_position req of
        None \<Rightarrow> Inl invalid_position
      | Some (px, py) \<Rightarrow>
     (case getGameState row of
        None \<Rightarrow> Inl not_found
      | Some state \<Rightarrow>
     (case row of None \<Rightarrow> Inl not_found | Some g \<Rightarrow>
        if \<not> gs_next_player_index state < length (gs_players state) then Inl failed_to_place
        else if gs_players state ! gs_next_player_index state \<noteq> req_player_color req
          then Inl not_your_turn
        else
          (case found of
             Own shape \<Rightarrow>
               (let (occ, playerSets) = placeSets (gs_moves state) ([], (\<lambda>_. {}));
                    transformed = transformShape shape (req_rotation req) (req_flipped req);
                    placed = translate transformed px py
                in
                  if \<not> isWithinBoard placed (gs_board_size state) then Inl out_of_bounds
                  else if list_ex (map_has occ) placed then Inl overlap
                  else
                    (let mySet = playerSets (req_player_color req);
                         isFirstMove =
                           (\<not> list_ex (\<lambda>m. player_color m = req_player_color req \<and> \<not> passed m)
                                (gs_moves state));
                         corner = START_CORNERS (req_player_color req)
                     in
                       case
                         (if isFirstMove then
                            (if \<not> list_ex (\<lambda>(x, y). x = fst corner \<and> y = snd corner) placed
                             then Some first_move_must_cover_corner else None)
                          else
                            (if \<not> hasCornerContact placed mySet
                             then Some must_touch_same_color_corner else None))
                       of Some e \<Rightarrow> Inl e
                       | None \<Rightarrow>
                       if hasEdgeContact placed mySet then Inl cannot_touch_same_color_edge
                       else
                         Inr (g\<lparr>moves := moves g @
                                  [\<lparr>player_color = req_player_color req,
                                    piece_key = Some (req_piece_key req),
                                    rotation = Some (to_int32 (req_rotation req)),
                                    flipped = Some (req_flipped req),
                                    cells = Some placed,
                                    passed = False,
                                    turn_number = length (gs_moves state) + 1\<rparr>],
                                next_player_index :=
                                  (gs_next_player_index state + 1) mod length (gs_players state)\<rparr>)))
           | _ \<Rightarrow> Inl failed_to_place)))))"

text \<open>\<^verbatim>\<open>POST /api/games/:id/skip\<close>.\<close>

definition skip :: "Game option \<Rightarrow> Color \<Rightarrow> Error + Game" where
  "skip row pc =
     (case getGameState row of
        None \<Rightarrow> Inl not_found
      | Some state \<Rightarrow>
     (case row of None \<Rightarrow> Inl not_found | Some g \<Rightarrow>
        if \<not> gs_next_player_index state < length (gs_players state) then Inl failed_to_skip
        else if gs_players state ! gs_next_player_index state \<noteq> pc then Inl not_your_turn
        else
          Inr (g\<lparr>moves := moves g @
                   [\<lparr>player_color = pc, piece_key = None, rotation = None, flipped = None,
                     cells = None, passed = True,
                     turn_number = length (gs_moves state) + 1\<rparr>],
                 next_player_index :=
                   (gs_next_player_index state + 1) mod length (gs_players state)\<rparr>)))"

text \<open>
  The games the server can hold: created by \<open>createGame\<close>, then changed only by accepted
  place and skip requests.
\<close>

inductive reachable :: "Game \<Rightarrow> bool" where
  created: "reachable (createGame ps)"
| placed: "reachable g \<Longrightarrow> place (Some g) req = Inr g' \<Longrightarrow> reachable g'"
| skipped: "reachable g \<Longrightarrow> skip (Some g) pc = Inr g' \<Longrightarrow> reachable g'"

text \<open>The cells claimed by a move log, in order, with repetitions.\<close>

fun claimed :: "Move list \<Rightarrow> Cell list" where
  "claimed [] = []"
| "claimed (m # ms) =
     (case cells m of Some cs \<Rightarrow> if \<not> passed m then cs else [] | None \<Rightarrow> []) @ claimed ms"

text \<open>The same cells, each with the colour of the move that claims it.\<close>

fun claims :: "Move list \<Rightarrow> (Cell \<times> Color) list" where
  "claims [] = []"
| "claims (m # ms) =
     (case cells m of
        Some cs \<Rightarrow> if \<not> passed m then map (\<lambda>xy. (xy, player_color m)) cs else []
      | None \<Rightarrow> []) @ claims ms"

text \<open>
  The starting corners as the specification words them, for a board of size \<open>n\<close>:
  blue \<open>(0,0)\<close>, yellow \<open>(n-1,0)\<close>, red \<open>(0,n-1)\<close>, green \<open>(n-1,n-1)\<close>.
\<close>

fun starting_corner_spec :: "int \<Rightarrow> Color \<Rightarrow> Cell" where
  "starting_corner_spec n Blue = (0, 0)"
| "starting_corner_spec n Yellow = (n - 1, 0)"
| "starting_corner_spec n Red = (0, n - 1)"
| "starting_corner_spec n Green = (n - 1, n - 1)"

section \<open>Client preview\<close>

text \<open>\<^verbatim>\<open>src/client/src/App.jsx\<close>: \<^verbatim>\<open>BOARD_SIZE\<close> and \<^verbatim>\<open>cornerFor\<close>.\<close>

definition BOARD_SIZE :: int where
  "BOARD_SIZE = 20"

fun cornerFor :: "Color \<Rightarrow> Cell" where
  "cornerFor Blue = (0, 0)"
| "cornerFor Yellow = (BOARD_SIZE - 1, 0)"
| "cornerFor Red = (BOARD_SIZE - 1, BOARD_SIZE - 1)"
| "cornerFor Green = (0, BOARD_SIZE - 1)"

text \<open>
  The client's own \<^verbatim>\<open>transform\<close>: the same steps as the server's, with the rotation loop
  running over the whole cell list.
\<close>

fun rotate_cells :: "nat \<Rightarrow> Cell list \<Rightarrow> Cell list" where
  "rotate_cells 0 cs = cs"
| "rotate_cells (Suc n) cs = rotate_cells n (map (\<lambda>(x, y). (y, - x)) cs)"

definition transform :: "Cell list \<Rightarrow> int \<Rightarrow> bool \<Rightarrow> Cell list" where
  "transform shape rot_arg flip_arg =
     (let cs = map (\<lambda>(x, y). (x, y)) shape;
          rot = js_rem (js_rem rot_arg 4 + 4) 4;
          cs = (if flip_arg then map (\<lambda>(x, y). (- x, y)) cs else cs);
          cs = rotate_cells (nat rot) cs;
          minX = math_min (map fst cs);
          minY = math_min (map snd cs)
      in map (\<lambda>(x, y). (x - minX, y - minY)) cs)"

text \<open>
  \<^verbatim>\<open>boardOccupancy\<close>: the board array \<^verbatim>\<open>occ[y][x]\<close>, read here at the cell \<open>(x, y)\<close>;
  \<open>None\<close> is \<^verbatim>\<open>null\<close>. The cells of accepted moves lie on the board, where the
  assignment \<^verbatim>\<open>occ[y][x] = m.player_color\<close> is an update of the array.
\<close>

fun boardOccupancy :: "Move list \<Rightarrow> (Cell \<Rightarrow> Color option) \<Rightarrow> (Cell \<Rightarrow> Color option)" where
  "boardOccupancy [] occ = occ"
| "boardOccupancy (m # ms) occ =
     boardOccupancy ms
       (case cells m of
          Some cs \<Rightarrow> if \<not> passed m then fold (\<lambda>xy o'. o'(xy := Some (player_color m))) cs occ else occ
        | None \<Rightarrow> occ)"

definition onBoard :: "int \<Rightarrow> int \<Rightarrow> bool" where
  "onBoard x y = (x \<ge> 0 \<and> y \<ge> 0 \<and> x < BOARD_SIZE \<and> y < BOARD_SIZE)"

definition playerHasAny :: "Color \<Rightarrow> (Cell \<Rightarrow> Color option) \<Rightarrow> bool" where
  "playerHasAny c occ =
     list_ex (\<lambda>yy. list_ex (\<lambda>xx. occ (xx, yy) = Some c) [0..BOARD_SIZE - 1]) [0..BOARD_SIZE - 1]"

text \<open>
  \<^verbatim>\<open>canPlaceLocal\<close>, the validity of the preview. The piece, the anchor and the colour
  are \<open>None\<close> when nothing is selected, hovered or on turn.
\<close>

definition canPlaceLocal ::
  "Cell list option \<Rightarrow> int \<Rightarrow> bool \<Rightarrow> (int \<times> int) option \<Rightarrow> Color option \<Rightarrow>
   (Cell \<Rightarrow> Color option) \<Rightarrow> bool" where
  "canPlaceLocal piece rot_arg flip_arg anchor color occ =
     (case (piece, anchor, color) of
        (Some shape, Some (ax, ay), Some c) \<Rightarrow>
          (let tr = transform shape rot_arg flip_arg;
               targets = map (\<lambda>(dx, dy). (ax + dx, ay + dy)) tr
           in
             if list_ex (\<lambda>(x, y). if onBoard x y then occ (x, y) \<noteq> None else True) targets
             then False
             else
               (let hasAny = playerHasAny c occ in
                  if list_ex (\<lambda>(x, y).
                       list_ex (\<lambda>(dx, dy). onBoard (x + dx) (y + dy) \<and> occ (x + dx, y + dy) = Some c)
                         [(1, 0), (- 1, 0), (0, 1), (0, - 1)]) targets
                  then False
                  else
                    (let touchesDiagonal =
                           list_ex (\<lambda>(x, y).
                             list_ex (\<lambda>(dx, dy). onBoard (x + dx) (y + dy) \<and> occ (x + dx, y + dy) = Some c)
                               [(1, 1), (1, - 1), (- 1, 1), (- 1, - 1)]) targets
                     in
                       if \<not> hasAny then
                         (let start = cornerFor c
                          in list_ex (\<lambda>(x, y). x = fst start \<and> y = snd start) targets)
                       else touchesDiagonal)))
      | _ \<Rightarrow> False)"

section \<open>Sessions\<close>

text \<open>
  A session is a list of requests to one game, served one after the other (the handlers
  of one game are taken to run one at a time); it stops at the first rejected request.
\<close>

datatype Request = PlaceRequest PlaceReq | SkipRequest Color

fun serve :: "Game \<Rightarrow> Request \<Rightarrow> Error + Game" where
  "serve g (PlaceRequest req) = place (Some g) req"
| "serve g (SkipRequest pc) = skip (Some g) pc"

fun run :: "Game \<Rightarrow> Request list \<Rightarrow> Error + Game" where
  "run g [] = Inr g"
| "run g (r # rs) = (case serve g r of Inl e \<Rightarrow> Inl e | Inr g' \<Rightarrow> run g' rs)"

text \<open>A placement request with rotation 0 and no flip, and the row a pass inserts.\<close>

definition put :: "Color \<Rightarrow> string \<Rightarrow> int \<Rightarrow> int \<Rightarrow> Request" where
  "put c k x y =
     PlaceRequest \<lparr>req_player_color = c, req_piece_key = k, req_rotation = 0,
                   req_flipped = False, req_position = Some (x, y)\<rparr>"

definition pass_move :: "Color \<Rightarrow> nat \<Rightarrow> Move" where
  "pass_move c n =
     \<lparr>player_color = c, piece_key = None, rotation = None, flipped = None, cells = None,
      passed = True, turn_number = n\<rparr>"

definition placement_move :: "Color \<Rightarrow> string \<Rightarrow> Cell list \<Rightarrow> nat \<Rightarrow> Move" where
  "placement_move c k cs n =
     \<lparr>player_color = c, piece_key = Some k, rotation = Some 0, flipped = Some False,
      cells = Some cs, passed = False, turn_number = n\<rparr>"

text \<open>The default four-player game after each player has passed once.\<close>

definition all_passed_game :: Game where
  "all_passed_game =
     \<lparr>status = Active, board_size = 20, next_player_index = 0, players = DEFAULT_COLORS,
      moves = [pass_move Blue 1, pass_move Yellow 2, pass_move Red 3, pass_move Green 4]\<rparr>"

text \<open>
  The default game after blue has put the one-cell piece on its corner and the others
  have passed: blue is on turn again.
\<close>

definition blue_cornered_game :: Game where
  "blue_cornered_game =
     \<lparr>status = Active, board_size = 20, next_player_index = 0, players = DEFAULT_COLORS,
      moves = [placement_move Blue ''I1'' [(0, 0)] 1, pass_move Yellow 2, pass_move Red 3,
               pass_move Green 4]\<rparr>"

text \<open>The default game when blue and yellow have passed once: red is on turn.\<close>

definition red_to_move_game :: Game where
  "red_to_move_game =
     \<lparr>status = Active, board_size = 20, next_player_index = 2, players = DEFAULT_COLORS,
      moves = [pass_move Blue 1, pass_move Yellow 2]\<rparr>"

text \<open>
  A game of the default four players in which blue places all 21 pieces, the one-cell
  piece first and \<open>T4\<close> last, while the others pass; a last pass by blue ends it.
\<close>

definition blue_plan :: "(string \<times> int \<times> int) list" where
  "blue_plan =
     [(''I1'', 0, 0), (''I2'', 1, 1), (''I3'', 3, 0), (''I4'', 3, 2), (''I5'', 7, 1),
      (''V3'', 1, 3), (''L4'', 2, 5), (''Z4'', 0, 8), (''O4'', 4, 6), (''T5'', 7, 3),
      (''L5'', 3, 10), (''Y5'', 12, 0), (''N5'', 5, 9), (''Z5'', 0, 14), (''U5'', 7, 6),
      (''V5'', 14, 2), (''W5'', 10, 4), (''X5'', 0, 16), (''P5'', 10, 8), (''F5'', 4, 13),
      (''T4'', 6, 12)]"

definition blue_uses_all_session :: "Request list" where
  "blue_uses_all_session =
     concat (map (\<lambda>(k, x, y). [put Blue k x y, SkipRequest Yellow, SkipRequest Red, SkipRequest Green])
               blue_plan)
     @ [SkipRequest Blue]"

section \<open>The piece catalog\<close>

text \<open>
  C9 (as amended). The catalog has exactly 21 entries with pairwise different keys; there
  are 1, 1, 2, 5 and 12 shapes of 1, 2, 3, 4 and 5 cells and none of another size. Every
  shape is a non-empty list of pairwise different cells with non-negative coordinates
  whose smallest x and smallest y are both 0, so the minimum corner of its bounding box
  is \<open>(0,0)\<close>. The cell \<open>(0,0)\<close> itself belongs to every shape except \<open>X5\<close> and \<open>F5\<close>.
\<close>

theorem PIECES_catalog_normalized:
  "length PIECES = 21 \<and> distinct (map fst PIECES) \<and>
   map (\<lambda>n. length (filter (\<lambda>(k, cs). length cs = n) PIECES)) [0, 1, 2, 3, 4, 5] = [0, 1, 1, 2, 5, 12] \<and>
   list_all (\<lambda>(k, cs). 1 \<le> length cs \<and> length cs \<le> 5) PIECES \<and>
   list_all (\<lambda>(k, cs). distinct cs \<and> list_all (\<lambda>(x, y). 0 \<le> x \<and> 0 \<le> y) cs) PIECES \<and>
   list_all (\<lambda>(k, cs). math_min (map fst cs) = 0 \<and> math_min (map snd cs) = 0) PIECES \<and>
   map fst (filter (\<lambda>(k, cs). (0, 0) \<notin> set cs) PIECES) = [''X5'', ''F5'']"
  by (simp add: PIECES_def)

text \<open>
  C9 as stated fails: the X-shaped pentomino is in the catalog and does not contain the
  cell \<open>(0,0)\<close>.
\<close>

theorem PIECES_X5_misses_origin:
  "map_of PIECES ''X5'' = Some [(1, 0), (0, 1), (1, 1), (2, 1), (1, 2)] \<and>
   (0, 0) \<notin> set [(1, 0), (0, 1), (1, 1), (2, 1), (1, 2) :: Cell]"
  by (simp add: PIECES_def)

section \<open>The geometry engine\<close>

lemma js_rem_wrap: "js_rem (js_rem r 4 + 4) 4 = r mod 4"
proof (cases "r \<ge> 0")
  case True
  then have "js_rem r 4 = r mod 4"
    by (cases "r = 0") (simp_all add: js_rem_def)
  moreover have "0 < r mod 4 + 4" by (smt (verit) pos_mod_sign)
  ultimately show ?thesis by (simp add: js_rem_def)
next
  case False
  then have a: "js_rem r 4 = - ((- r) mod 4)" by (simp add: js_rem_def)
  have "0 < - ((- r) mod 4) + 4" by (smt (verit) pos_mod_bound)
  then have "js_rem (- ((- r) mod 4) + 4) 4 = (- ((- r) mod 4) + 4) mod 4"
    by (simp add: js_rem_def)
  also have "\<dots> = r mod 4" by presburger
  finally show ?thesis using a by simp
qed

lemma rotate_loop_funpow: "rotate_loop n p = (rot90_spec ^^ n) p"
proof (induction n arbitrary: p)
  case 0
  show ?case by simp
next
  case (Suc n)
  obtain x y where p: "p = (x, y)" by (cases p)
  show ?case using Suc[of "(y, - x)"] by (simp add: p funpow_swap1 rot90_spec_def)
qed

lemma math_min_Min: "xs \<noteq> [] \<Longrightarrow> math_min xs = Min (set xs)"
proof (cases xs)
  case Nil
  assume "xs \<noteq> []"
  with Nil show ?thesis by simp
next
  case (Cons a list)
  show ?thesis unfolding Cons math_min.simps by (rule Min.set_eq_fold[symmetric])
qed

lemma normalize_cells_spec: "normalize_cells cs = normalize_spec cs"
proof (cases cs)
  case Nil
  then show ?thesis by (simp add: normalize_cells_def normalize_spec_def)
next
  case (Cons a list)
  then have "math_min (map fst cs) = Min (fst ` set cs)" "math_min (map snd cs) = Min (snd ` set cs)"
    using math_min_Min[of "map fst cs"] math_min_Min[of "map snd cs"] by simp_all
  then show ?thesis by (simp add: normalize_cells_def normalize_spec_def)
qed

lemma normalize_spec_min:
  assumes "cs \<noteq> []"
  shows "Min (fst ` set (normalize_spec cs)) = 0" "Min (snd ` set (normalize_spec cs)) = 0"
proof -
  let ?mx = "Min (fst ` set cs)" and ?my = "Min (snd ` set cs)"
  have fin: "finite (fst ` set cs)" "fst ` set cs \<noteq> {}" "finite (snd ` set cs)" "snd ` set cs \<noteq> {}"
    using assms by simp_all
  have ex: "fst ` set (normalize_spec cs) = (\<lambda>x. x - ?mx) ` fst ` set cs"
    by (force simp: normalize_spec_def image_iff)
  have ey: "snd ` set (normalize_spec cs) = (\<lambda>y. y - ?my) ` snd ` set cs"
    by (force simp: normalize_spec_def image_iff)
  have mono: "\<And>k::int. mono (\<lambda>x. x - k)" by (simp add: mono_def)
  show "Min (fst ` set (normalize_spec cs)) = 0"
    unfolding ex using mono_Min_commute[OF mono fin(1,2), of ?mx] by simp
  show "Min (snd ` set (normalize_spec cs)) = 0"
    unfolding ey using mono_Min_commute[OF mono fin(3,4), of ?my] by simp
qed

lemma transformShape_eq_spec: "transformShape shape r fl = transform_spec shape r fl"
proof -
  have rot: "(\<lambda>p. rotate_point p r) = rot90_spec ^^ nat (r mod 4)"
    by (rule ext) (simp add: rotate_point_def js_rem_wrap rotate_loop_funpow)
  have flm: "flip = mirror_spec"
    by (rule ext) (simp add: flip_def mirror_spec_def split_beta)
  show ?thesis
    by (simp add: transformShape_def transform_spec_def rot flm normalize_cells_spec)
qed

text \<open>
  C4. For every shape, every rotation integer \<open>r\<close> of either sign and every flip flag,
  \<open>transformShape\<close> computes what the specification describes: the mirror
  \<open>(x,y) \<mapsto> (-x,y)\<close> when flipped, then the clockwise quarter turn \<open>(x,y) \<mapsto> (y,-x)\<close>
  applied \<open>r mod 4\<close> times, then the subtraction of the smallest x and the smallest y.
  The count the source computes with its truncating remainder, \<^verbatim>\<open>((r % 4) + 4) % 4\<close>, is
  the mathematical \<open>r mod 4\<close>, a number from 0 to 3. For a non-empty shape the smallest x
  and the smallest y of the result are 0.
\<close>

theorem transformShape_flip_rotate_normalize:
  "transformShape shape r fl = transform_spec shape r fl \<and>
   js_rem (js_rem r 4 + 4) 4 = r mod 4 \<and> 0 \<le> r mod 4 \<and> r mod 4 < 4 \<and>
   (shape \<noteq> [] \<longrightarrow>
      Min (fst ` set (transformShape shape r fl)) = 0 \<and>
      Min (snd ` set (transformShape shape r fl)) = 0)"
proof -
  note eq = transformShape_eq_spec[of shape r fl]
  have m: "Min (fst ` set (transformShape shape r fl)) = 0 \<and>
           Min (snd ` set (transformShape shape r fl)) = 0" if "shape \<noteq> []"
    unfolding eq transform_spec_def using that
    by (intro conjI normalize_spec_min) simp_all
  have c: "0 \<le> r mod 4 \<and> r mod 4 < 4" by simp
  from eq js_rem_wrap[of r] c m show ?thesis by blast
qed

theorem transformShape_flip_rotate_normalize_witness:
  "transformShape [(1, 0), (0, 1), (1, 1), (1, 2), (2, 2)] (- 1) True
     = transform_spec [(1, 0), (0, 1), (1, 1), (1, 2), (2, 2)] (- 1) True \<and>
   [(1, 0), (0, 1), (1, 1), (1, 2), (2, 2) :: Cell] \<noteq> [] \<and>
   Min (fst ` set (transformShape [(1, 0), (0, 1), (1, 1), (1, 2), (2, 2)] (- 1) True)) = 0 \<and>
   Min (snd ` set (transformShape [(1, 0), (0, 1), (1, 1), (1, 2), (2, 2)] (- 1) True)) = 0 \<and>
   transformShape [(1, 0), (0, 1), (1, 1), (1, 2), (2, 2)] (- 1) True
     = [(2, 1), (1, 2), (1, 1), (0, 1), (0, 0)]"
proof -
  have v: "transformShape [(1, 0), (0, 1), (1, 1), (1, 2), (2, 2)] (- 1) True
     = [(2, 1), (1, 2), (1, 1), (0, 1), (0, 0)]"
    by (simp add: transformShape_def rotate_point_def js_rem_def flip_def normalize_cells_def
        eval_nat_numeral)
  have ne: "[(1, 0), (0, 1), (1, 1), (1, 2), (2, 2) :: Cell] \<noteq> []" by simp
  note t = transformShape_flip_rotate_normalize
      [of "[(1, 0), (0, 1), (1, 1), (1, 2), (2, 2)]" "- 1" True]
  from t have e: "transformShape [(1, 0), (0, 1), (1, 1), (1, 2), (2, 2)] (- 1) True
     = transform_spec [(1, 0), (0, 1), (1, 1), (1, 2), (2, 2)] (- 1) True"
    by (rule conjunct1)
  from t ne have m:
    "Min (fst ` set (transformShape [(1, 0), (0, 1), (1, 1), (1, 2), (2, 2)] (- 1) True)) = 0 \<and>
     Min (snd ` set (transformShape [(1, 0), (0, 1), (1, 1), (1, 2), (2, 2)] (- 1) True)) = 0"
    by blast
  from e ne m v show ?thesis by blast
qed

section \<open>The handlers on an existing game\<close>

text \<open>
  The handlers read four fields of the projected state, which are copies of the stored
  ones; unfolding the projection gives the handlers in terms of the stored game.
\<close>

lemma PIECES_lookup_Own: "map_of PIECES k = Some shape \<Longrightarrow> PIECES_lookup k = Own shape"
  by (simp add: PIECES_lookup_def)

lemma stateOf_fields:
  "gs_board_size (stateOf g) = board_size g"
  "gs_next_player_index (stateOf g) = next_player_index g"
  "gs_players (stateOf g) = players g"
  "gs_moves (stateOf g) = moves g"
  by (simp_all add: stateOf_def Let_def)

lemma place_Some:
  "place (Some g) req =
     (case PIECES_lookup (req_piece_key req) of
        Absent \<Rightarrow> Inl invalid_piece
      | found \<Rightarrow>
     (case req_position req of
        None \<Rightarrow> Inl invalid_position
      | Some (px, py) \<Rightarrow>
        if \<not> next_player_index g < length (players g) then Inl failed_to_place
        else if players g ! next_player_index g \<noteq> req_player_color req
          then Inl not_your_turn
        else
          (case found of
             Own shape \<Rightarrow>
               (let (occ, playerSets) = placeSets (moves g) ([], (\<lambda>_. {}));
                    placed = translate (transformShape shape (req_rotation req) (req_flipped req)) px py
                in
                  if \<not> isWithinBoard placed (board_size g) then Inl out_of_bounds
                  else if list_ex (map_has occ) placed then Inl overlap
                  else
                    (let mySet = playerSets (req_player_color req);
                         isFirstMove =
                           (\<not> list_ex (\<lambda>m. player_color m = req_player_color req \<and> \<not> passed m)
                                (moves g));
                         corner = START_CORNERS (req_player_color req)
                     in
                       case
                         (if isFirstMove then
                            (if \<not> list_ex (\<lambda>(x, y). x = fst corner \<and> y = snd corner) placed
                             then Some first_move_must_cover_corner else None)
                          else
                            (if \<not> hasCornerContact placed mySet
                             then Some must_touch_same_color_corner else None))
                       of Some e \<Rightarrow> Inl e
                       | None \<Rightarrow>
                       if hasEdgeContact placed mySet then Inl cannot_touch_same_color_edge
                       else
                         Inr (g\<lparr>moves := moves g @
                                  [\<lparr>player_color = req_player_color req,
                                    piece_key = Some (req_piece_key req),
                                    rotation = Some (to_int32 (req_rotation req)),
                                    flipped = Some (req_flipped req),
                                    cells = Some placed,
                                    passed = False,
                                    turn_number = length (moves g) + 1\<rparr>],
                                next_player_index :=
                                  (next_player_index g + 1) mod length (players g)\<rparr>)))
           | _ \<Rightarrow> Inl failed_to_place)))"
  unfolding place_def getGameState_def option.map option.case stateOf_fields Let_def
  by (rule refl)

lemma skip_Some:
  "skip (Some g) pc =
     (if \<not> next_player_index g < length (players g) then Inl failed_to_skip
      else if players g ! next_player_index g \<noteq> pc then Inl not_your_turn
      else
        Inr (g\<lparr>moves := moves g @
                 [\<lparr>player_color = pc, piece_key = None, rotation = None, flipped = None,
                   cells = None, passed = True, turn_number = length (moves g) + 1\<rparr>],
               next_player_index := (next_player_index g + 1) mod length (players g)\<rparr>))"
  unfolding skip_def getGameState_def option.map option.case stateOf_fields
  by (rule refl)


text \<open>
  The two containers of the place handler, characterised by the cells the log claims:
  the keys of \<^verbatim>\<open>occupied\<close> are all claimed cells, and a colour's set holds the cells
  claimed by that colour's moves.
\<close>

lemma claim_cells_keys:
  "fst ` set (fst (claim_cells c cs (occ, sets))) = fst ` set occ \<union> set cs"
  by (induction cs arbitrary: occ sets) (auto simp: dom_update)

lemma claim_cells_sets:
  "snd (claim_cells c cs (occ, sets)) c' = (if c' = c then sets c' \<union> set cs else sets c')"
  by (induction cs arbitrary: occ sets) auto

lemma placeSets_keys:
  "fst ` set (fst (placeSets ms (occ, sets))) = fst ` set occ \<union> set (claimed ms)"
proof (induction ms arbitrary: occ sets)
  case Nil
  show ?case by simp
next
  case (Cons m ms)
  show ?case
  proof (cases "cells m")
    case None
    then show ?thesis using Cons[of occ sets] by simp
  next
    case (Some cs)
    obtain occ' sets' where cc: "claim_cells (player_color m) cs (occ, sets) = (occ', sets')"
      by (cases "claim_cells (player_color m) cs (occ, sets)")
    have k: "fst ` set occ' = fst ` set occ \<union> set cs"
      using claim_cells_keys[of "player_color m" cs occ sets] cc by simp
    show ?thesis
      using Some cc k Cons[of occ sets] Cons[of occ' sets'] by (auto simp: Un_assoc)
  qed
qed

lemma placeSets_sets:
  "snd (placeSets ms (occ, sets)) c = sets c \<union> set (claimed (filter (\<lambda>m. player_color m = c) ms))"
proof (induction ms arbitrary: occ sets)
  case Nil
  show ?case by simp
next
  case (Cons m ms)
  show ?case
  proof (cases "cells m")
    case None
    then show ?thesis using Cons[of occ sets] by simp
  next
    case (Some cs)
    obtain occ' sets' where cc: "claim_cells (player_color m) cs (occ, sets) = (occ', sets')"
      by (cases "claim_cells (player_color m) cs (occ, sets)")
    have k: "sets' c = (if c = player_color m then sets c \<union> set cs else sets c)"
      using claim_cells_sets[of "player_color m" cs occ sets c] cc by simp
    show ?thesis
      using Some cc k Cons[of occ sets] Cons[of occ' sets'] by (auto simp: Un_assoc)
  qed
qed

lemma map_has_placeSets:
  "map_has (fst (placeSets ms ([], (\<lambda>_. {})))) = (\<lambda>p. p \<in> set (claimed ms))"
  by (rule ext) (simp add: map_has_def placeSets_keys)

lemma mySet_placeSets:
  "snd (placeSets ms ([], (\<lambda>_. {}))) c = set (claimed (filter (\<lambda>m. player_color m = c) ms))"
  by (simp add: placeSets_sets)

lemma place_Some_claimed:
  "place (Some g) req =
     (case PIECES_lookup (req_piece_key req) of
        Absent \<Rightarrow> Inl invalid_piece
      | found \<Rightarrow>
     (case req_position req of
        None \<Rightarrow> Inl invalid_position
      | Some (px, py) \<Rightarrow>
        if \<not> next_player_index g < length (players g) then Inl failed_to_place
        else if players g ! next_player_index g \<noteq> req_player_color req
          then Inl not_your_turn
        else
          (case found of
             Own shape \<Rightarrow>
               (let placed = translate (transformShape shape (req_rotation req) (req_flipped req)) px py
                in
                  if \<not> isWithinBoard placed (board_size g) then Inl out_of_bounds
                  else if list_ex (\<lambda>p. p \<in> set (claimed (moves g))) placed then Inl overlap
                  else
                    (let mySet = set (claimed (filter (\<lambda>m. player_color m = req_player_color req) (moves g)));
                         isFirstMove =
                           (\<not> list_ex (\<lambda>m. player_color m = req_player_color req \<and> \<not> passed m)
                                (moves g));
                         corner = START_CORNERS (req_player_color req)
                     in
                       case
                         (if isFirstMove then
                            (if \<not> list_ex (\<lambda>(x, y). x = fst corner \<and> y = snd corner) placed
                             then Some first_move_must_cover_corner else None)
                          else
                            (if \<not> hasCornerContact placed mySet
                             then Some must_touch_same_color_corner else None))
                       of Some e \<Rightarrow> Inl e
                       | None \<Rightarrow>
                       if hasEdgeContact placed mySet then Inl cannot_touch_same_color_edge
                       else
                         Inr (g\<lparr>moves := moves g @
                                  [\<lparr>player_color = req_player_color req,
                                    piece_key = Some (req_piece_key req),
                                    rotation = Some (to_int32 (req_rotation req)),
                                    flipped = Some (req_flipped req),
                                    cells = Some placed,
                                    passed = False,
                                    turn_number = length (moves g) + 1\<rparr>],
                                next_player_index :=
                                  (next_player_index g + 1) mod length (players g)\<rparr>)))
           | _ \<Rightarrow> Inl failed_to_place)))"
  unfolding place_Some Let_def split_def map_has_placeSets mySet_placeSets
  by (rule refl)

text \<open>Evaluation of sessions uses the two derived equations.\<close>

declare place_Some_claimed [code] skip_Some [code]

section \<open>Accepted requests and reachable games\<close>

lemma skip_accepted:
  assumes "skip (Some g) pc = Inr g'"
  shows "next_player_index g < length (players g)"
    and "players g ! next_player_index g = pc"
    and "g' = g\<lparr>moves := moves g @ [pass_move pc (length (moves g) + 1)],
                 next_player_index := (next_player_index g + 1) mod length (players g)\<rparr>"
  using assms by (auto simp: skip_Some pass_move_def split: if_splits)

lemma place_accepted:
  assumes "place (Some g) req = Inr g'"
  obtains m where "next_player_index g < length (players g)"
    and "players g ! next_player_index g = req_player_color req"
    and "g' = g\<lparr>moves := moves g @ [m],
                 next_player_index := (next_player_index g + 1) mod length (players g)\<rparr>"
    and "player_color m = req_player_color req" and "\<not> passed m"
  using assms
  by (auto simp: place_Some Let_def
      split: Lookup.splits option.splits prod.splits if_splits)

lemma reachable_invariant:
  "reachable g \<Longrightarrow>
     status g = Active \<and> board_size g = 20 \<and> players g \<noteq> [] \<and>
     next_player_index g < length (players g)"
proof (induction rule: reachable.induct)
  case (created ps)
  show ?case by (cases ps) (simp_all add: createGame_def DEFAULT_COLORS_def)
next
  case (placed g req g')
  from placed.hyps(2) obtain m where
    "g' = g\<lparr>moves := moves g @ [m],
             next_player_index := (next_player_index g + 1) mod length (players g)\<rparr>"
    by (rule place_accepted)
  with placed.IH show ?case by simp
next
  case (skipped g pc g')
  from skip_accepted(3)[OF skipped.hyps(2)] skipped.IH show ?case by simp
qed

lemma run_reachable: "reachable g \<Longrightarrow> run g rs = Inr g' \<Longrightarrow> reachable g'"
proof (induction rs arbitrary: g)
  case Nil
  then show ?case by simp
next
  case (Cons r rs)
  from Cons.prems(2) obtain g1 where s: "serve g r = Inr g1" and r: "run g1 rs = Inr g'"
    by (auto split: sum.splits)
  have "reachable g1"
  proof (cases r)
    case (PlaceRequest req)
    with s Cons.prems(1) show ?thesis by (auto intro: reachable.placed)
  next
    case (SkipRequest pc)
    with s Cons.prems(1) show ?thesis by (auto intro: reachable.skipped)
  qed
  then show ?case using r by (rule Cons.IH)
qed

section \<open>Turn order\<close>

text \<open>
  C5. After every accepted move, a placement or a pass, the stored \<open>next_player_index\<close>
  is the previous index plus one modulo the number of players (the player list itself is
  unchanged). With four players the index goes from 0 to 1 and from 3 back to 0.
\<close>

theorem turn_pointer_advances:
  assumes "place (Some g) req = Inr g' \<or> skip (Some g) pc = Inr g'"
  shows "next_player_index g' = (next_player_index g + 1) mod length (players g) \<and>
         players g' = players g \<and>
         (length (players g) = 4 \<and> next_player_index g = 0 \<longrightarrow> next_player_index g' = 1) \<and>
         (length (players g) = 4 \<and> next_player_index g = 3 \<longrightarrow> next_player_index g' = 0)"
proof -
  have "next_player_index g' = (next_player_index g + 1) mod length (players g) \<and> players g' = players g"
    using assms
  proof
    assume "place (Some g) req = Inr g'"
    then obtain m where
      "g' = g\<lparr>moves := moves g @ [m],
               next_player_index := (next_player_index g + 1) mod length (players g)\<rparr>"
      by (rule place_accepted)
    then show ?thesis by simp
  next
    assume "skip (Some g) pc = Inr g'"
    from skip_accepted(3)[OF this] show ?thesis by simp
  qed
  then show ?thesis by simp
qed


theorem turn_pointer_advances_witness:
  "place (Some (createGame None))
      \<lparr>req_player_color = Blue, req_piece_key = ''I1'', req_rotation = 0, req_flipped = False,
       req_position = Some (0, 0)\<rparr>
     = Inr ((createGame None)\<lparr>moves := [placement_move Blue ''I1'' [(0, 0)] 1], next_player_index := 1\<rparr>) \<and>
   length (players (createGame None)) = 4 \<and> next_player_index (createGame None) = 0 \<and>
   next_player_index
     ((createGame None)\<lparr>moves := [placement_move Blue ''I1'' [(0, 0)] 1], next_player_index := 1\<rparr>) = 1 \<and>
   skip (Some (all_passed_game\<lparr>moves := butlast (moves all_passed_game), next_player_index := 3\<rparr>)) Green
     = Inr all_passed_game \<and>
   next_player_index all_passed_game = 0"
proof -
  let ?req = "\<lparr>req_player_color = Blue, req_piece_key = ''I1'', req_rotation = 0,
               req_flipped = False, req_position = Some (0, 0)\<rparr>"
  let ?g1 = "(createGame None)\<lparr>moves := [placement_move Blue ''I1'' [(0, 0)] 1], next_player_index := 1\<rparr>"
  let ?g3 = "all_passed_game\<lparr>moves := butlast (moves all_passed_game), next_player_index := 3\<rparr>"
  have p: "place (Some (createGame None)) ?req = Inr ?g1"
    by code_simp
  have s: "skip (Some ?g3) Green = Inr all_passed_game"
    by code_simp
  have l: "length (players (createGame None)) = 4 \<and> next_player_index (createGame None) = 0"
    by (simp add: createGame_def DEFAULT_COLORS_def)
  have l3: "length (players ?g3) = 4 \<and> next_player_index ?g3 = 3"
    by (simp add: all_passed_game_def DEFAULT_COLORS_def)
  from turn_pointer_advances[of "createGame None" ?req ?g1 Blue] p l
  have a: "next_player_index ?g1 = 1" by blast
  from turn_pointer_advances[of ?g3 ?req all_passed_game Green] s l3
  have b: "next_player_index all_passed_game = 0" by blast
  from p s l a b show ?thesis by blast
qed

section \<open>End detection\<close>

lemma all_passed_game_run:
  "run (createGame None) [SkipRequest Blue, SkipRequest Yellow, SkipRequest Red, SkipRequest Green]
     = Inr all_passed_game"
  by code_simp

lemma all_passed_game_reachable: "reachable all_passed_game"
  using run_reachable[OF reachable.created all_passed_game_run] .

lemma everyonePassed_iff:
  assumes "ps \<noteq> []"
  shows "everyonePassed ps ms \<longleftrightarrow>
     length ps \<le> length ms \<and> list_all passed (drop (length ms - length ps) ms)"
  using assms by (auto simp: everyonePassed_def slice_last_def Let_def)

lemma gs_status_stateOf:
  "gs_status (stateOf g) = (if everyonePassed (players g) (moves g) then Finished else status g)"
  by (simp add: stateOf_def Let_def)

text \<open>
  C6. In every game the server can hold, the projected status is \<open>Finished\<close> exactly when
  the log has at least as many moves as there are players and the most recent
  \<open>length (players g)\<close> moves are all passes, whatever came before; otherwise it is
  \<open>Active\<close>.
\<close>

theorem finished_iff_everyone_passed:
  assumes "reachable g"
  shows "gs_status (stateOf g) =
     (if length (players g) \<le> length (moves g) \<and>
         list_all passed (drop (length (moves g) - length (players g)) (moves g))
      then Finished else Active)"
proof -
  from reachable_invariant[OF assms] have "status g = Active" "players g \<noteq> []" by simp_all
  then show ?thesis
    by (simp add: gs_status_stateOf everyonePassed_iff)
qed

theorem finished_iff_everyone_passed_witness:
  "reachable all_passed_game \<and> gs_status (stateOf all_passed_game) = Finished \<and>
   length (players all_passed_game) \<le> length (moves all_passed_game) \<and>
   list_all passed (drop (length (moves all_passed_game) - length (players all_passed_game))
      (moves all_passed_game)) \<and>
   reachable (createGame None) \<and> gs_status (stateOf (createGame None)) = Active"
proof -
  have c: "length (players all_passed_game) \<le> length (moves all_passed_game) \<and>
     list_all passed (drop (length (moves all_passed_game) - length (players all_passed_game))
      (moves all_passed_game))"
    by (simp add: all_passed_game_def DEFAULT_COLORS_def pass_move_def)
  have d: "\<not> length (players (createGame None)) \<le> length (moves (createGame None))"
    by (simp add: createGame_def DEFAULT_COLORS_def)
  have r0: "reachable (createGame None)" by (rule reachable.created)
  from finished_iff_everyone_passed[OF all_passed_game_reachable] c
  have a: "gs_status (stateOf all_passed_game) = Finished" by simp
  from finished_iff_everyone_passed[OF r0] d
  have b: "gs_status (stateOf (createGame None)) = Active" by simp
  from a b c r0 all_passed_game_reachable show ?thesis by blast
qed

section \<open>Requests to a finished game\<close>

text \<open>
  C8 as stated fails: after the four players of a default game have passed, the game is
  finished, and still a fifth pass by blue is accepted and appended, and so is a placement
  by blue.
\<close>

theorem finished_game_accepts_requests:
  "run (createGame None) [SkipRequest Blue, SkipRequest Yellow, SkipRequest Red, SkipRequest Green]
     = Inr all_passed_game \<and>
   gs_status (stateOf all_passed_game) = Finished \<and>
   skip (Some all_passed_game) Blue
     = Inr (all_passed_game\<lparr>moves := moves all_passed_game @ [pass_move Blue 5],
                             next_player_index := 1\<rparr>) \<and>
   place (Some all_passed_game)
      \<lparr>req_player_color = Blue, req_piece_key = ''I1'', req_rotation = 0, req_flipped = False,
       req_position = Some (0, 0)\<rparr>
     = Inr (all_passed_game\<lparr>moves := moves all_passed_game @ [placement_move Blue ''I1'' [(0, 0)] 5],
                             next_player_index := 1\<rparr>)"
proof -
  have "gs_status (stateOf all_passed_game) = Finished"
    by (simp add: gs_status_stateOf everyonePassed_def slice_last_def all_passed_game_def
        DEFAULT_COLORS_def pass_move_def)
  moreover have "skip (Some all_passed_game) Blue
     = Inr (all_passed_game\<lparr>moves := moves all_passed_game @ [pass_move Blue 5],
                             next_player_index := 1\<rparr>)"
    by code_simp
  moreover have "place (Some all_passed_game)
      \<lparr>req_player_color = Blue, req_piece_key = ''I1'', req_rotation = 0, req_flipped = False,
       req_position = Some (0, 0)\<rparr>
     = Inr (all_passed_game\<lparr>moves := moves all_passed_game @ [placement_move Blue ''I1'' [(0, 0)] 5],
                             next_player_index := 1\<rparr>)"
    by code_simp
  ultimately show ?thesis using all_passed_game_run by blast
qed

text \<open>A pass appended to a log that ends in a full round of passes leaves such a log.\<close>

lemma everyonePassed_after_pass:
  assumes "ps \<noteq> []" and "everyonePassed ps ms" and "passed m"
  shows "everyonePassed ps (ms @ [m])"
proof -
  from assms(1,2) have le: "length ps \<le> length ms"
    and al: "list_all passed (drop (length ms - length ps) ms)"
    by (simp_all add: everyonePassed_iff)
  have "set (drop (Suc (length ms) - length ps) ms) \<subseteq> set (drop (length ms - length ps) ms)"
    by (rule set_drop_subset_set_drop) simp
  with al have "list_all passed (drop (Suc (length ms) - length ps) ms)"
    by (auto simp: list_all_iff)
  moreover have "list_all passed (drop k [m])" for k
    using assms(3) by (cases k) simp_all
  ultimately show ?thesis using le assms(1)
    by (simp add: everyonePassed_iff)
qed

text \<open>A placement at the end of the log breaks the round of passes.\<close>

lemma not_everyonePassed_after_placement:
  assumes "ps \<noteq> []" and "\<not> passed m"
  shows "\<not> everyonePassed ps (ms @ [m])"
proof
  assume "everyonePassed ps (ms @ [m])"
  with assms(1) have le: "length ps \<le> Suc (length ms)"
    and al: "list_all passed (drop (Suc (length ms) - length ps) (ms @ [m]))"
    by (simp_all add: everyonePassed_iff)
  from assms(1) have "Suc (length ms) - length ps \<le> length ms"
    by (cases ps) simp_all
  then have "m \<in> set (drop (Suc (length ms) - length ps) (ms @ [m]))" by simp
  with al have "passed m" by (simp add: list_all_iff)
  with assms(2) show False by simp
qed

lemma scores_stateOf:
  "gs_status (stateOf g) \<noteq> Finished \<Longrightarrow> scores (stateOf g) = Map.empty"
  by (simp add: stateOf_def Let_def)

text \<open>
  C8 (as amended). Finished is not terminal: neither handler reads the status. On a
  finished game a pass is accepted and appended exactly when the requesting colour is the
  one at the turn pointer, and is rejected with \<open>not_your_turn\<close> otherwise; after the
  accepted pass the game is still finished. A placement by the colour on turn that
  passes the ordinary checks (catalog piece, position, on the board, no overlap, the
  corner for a first move or a corner contact otherwise, no edge contact) is accepted and
  appended as on an active game; and after any accepted placement the log is one move
  longer, the projected status is \<open>Active\<close> again and there are no scores.
\<close>

theorem finished_game_requests_accepted:
  assumes "reachable g" and "gs_status (stateOf g) = Finished"
  shows "skip (Some g) pc =
     (if pc = players g ! next_player_index g
      then Inr (g\<lparr>moves := moves g @ [pass_move pc (length (moves g) + 1)],
                   next_player_index := (next_player_index g + 1) mod length (players g)\<rparr>)
      else Inl not_your_turn) \<and>
     gs_status (stateOf (g\<lparr>moves := moves g @ [pass_move pc (length (moves g) + 1)],
                   next_player_index := (next_player_index g + 1) mod length (players g)\<rparr>)) = Finished \<and>
     (\<forall>req shape px py.
        map_of PIECES (req_piece_key req) = Some shape \<and>
        req_position req = Some (px, py) \<and>
        players g ! next_player_index g = req_player_color req \<and>
        isWithinBoard (translate (transformShape shape (req_rotation req) (req_flipped req)) px py)
          (board_size g) \<and>
        \<not> list_ex (map_has (fst (placeSets (moves g) ([], (\<lambda>_. {})))))
            (translate (transformShape shape (req_rotation req) (req_flipped req)) px py) \<and>
        (if list_ex (\<lambda>m. player_color m = req_player_color req \<and> \<not> passed m) (moves g)
         then hasCornerContact
                (translate (transformShape shape (req_rotation req) (req_flipped req)) px py)
                (snd (placeSets (moves g) ([], (\<lambda>_. {}))) (req_player_color req))
         else START_CORNERS (req_player_color req)
                \<in> set (translate (transformShape shape (req_rotation req) (req_flipped req)) px py)) \<and>
        \<not> hasEdgeContact
            (translate (transformShape shape (req_rotation req) (req_flipped req)) px py)
            (snd (placeSets (moves g) ([], (\<lambda>_. {}))) (req_player_color req))
        \<longrightarrow>
        place (Some g) req =
          Inr (g\<lparr>moves := moves g @
                [\<lparr>player_color = req_player_color req,
                  piece_key = Some (req_piece_key req),
                  rotation = Some (to_int32 (req_rotation req)),
                  flipped = Some (req_flipped req),
                  cells = Some (translate (transformShape shape (req_rotation req) (req_flipped req)) px py),
                  passed = False,
                  turn_number = length (moves g) + 1\<rparr>],
                next_player_index := (next_player_index g + 1) mod length (players g)\<rparr>)) \<and>
     (\<forall>req g'. place (Some g) req = Inr g' \<longrightarrow>
        length (moves g') = length (moves g) + 1 \<and>
        gs_status (stateOf g') = Active \<and> scores (stateOf g') = Map.empty)"
proof -
  from reachable_invariant[OF assms(1)]
  have inv: "status g = Active" "players g \<noteq> []" "next_player_index g < length (players g)"
    by simp_all
  from assms(2) inv(1) have ep: "everyonePassed (players g) (moves g)"
    by (simp add: gs_status_stateOf split: if_splits)
  have "everyonePassed (players g) (moves g @ [pass_move pc (length (moves g) + 1)])"
    by (rule everyonePassed_after_pass[OF inv(2) ep]) (simp add: pass_move_def)
  then have s: "skip (Some g) pc =
     (if pc = players g ! next_player_index g
      then Inr (g\<lparr>moves := moves g @ [pass_move pc (length (moves g) + 1)],
                   next_player_index := (next_player_index g + 1) mod length (players g)\<rparr>)
      else Inl not_your_turn) \<and>
     gs_status (stateOf (g\<lparr>moves := moves g @ [pass_move pc (length (moves g) + 1)],
                   next_player_index := (next_player_index g + 1) mod length (players g)\<rparr>)) = Finished"
    using inv by (auto simp: skip_Some pass_move_def gs_status_stateOf)
  have covers: "list_ex (\<lambda>p. fst p = fst k \<and> snd p = snd k) cs \<longleftrightarrow> k \<in> set cs"
    for k :: Cell and cs
    by (auto simp: list_ex_iff prod_eq_iff)
  have p: "place (Some g) req =
          Inr (g\<lparr>moves := moves g @
                [\<lparr>player_color = req_player_color req,
                  piece_key = Some (req_piece_key req),
                  rotation = Some (to_int32 (req_rotation req)),
                  flipped = Some (req_flipped req),
                  cells = Some (translate (transformShape shape (req_rotation req) (req_flipped req)) px py),
                  passed = False,
                  turn_number = length (moves g) + 1\<rparr>],
                next_player_index := (next_player_index g + 1) mod length (players g)\<rparr>)"
    if "map_of PIECES (req_piece_key req) = Some shape"
      and "req_position req = Some (px, py)"
      and "players g ! next_player_index g = req_player_color req"
      and "isWithinBoard (translate (transformShape shape (req_rotation req) (req_flipped req)) px py)
          (board_size g)"
      and "\<not> list_ex (map_has (fst (placeSets (moves g) ([], (\<lambda>_. {})))))
            (translate (transformShape shape (req_rotation req) (req_flipped req)) px py)"
      and "if list_ex (\<lambda>m. player_color m = req_player_color req \<and> \<not> passed m) (moves g)
         then hasCornerContact
                (translate (transformShape shape (req_rotation req) (req_flipped req)) px py)
                (snd (placeSets (moves g) ([], (\<lambda>_. {}))) (req_player_color req))
         else START_CORNERS (req_player_color req)
                \<in> set (translate (transformShape shape (req_rotation req) (req_flipped req)) px py)"
      and "\<not> hasEdgeContact
            (translate (transformShape shape (req_rotation req) (req_flipped req)) px py)
            (snd (placeSets (moves g) ([], (\<lambda>_. {}))) (req_player_color req))"
    for req shape px py
    using that inv(3)
    by (simp add: place_Some PIECES_lookup_Own Let_def split_def covers split: if_splits)
  have a: "length (moves g') = length (moves g) + 1 \<and>
        gs_status (stateOf g') = Active \<and> scores (stateOf g') = Map.empty"
    if "place (Some g) req = Inr g'" for req g'
  proof -
    from that obtain m where g': "g' = g\<lparr>moves := moves g @ [m],
                 next_player_index := (next_player_index g + 1) mod length (players g)\<rparr>"
      and np: "\<not> passed m"
      by (rule place_accepted)
    have "\<not> everyonePassed (players g) (moves g @ [m])"
      by (rule not_everyonePassed_after_placement[OF inv(2) np])
    then have st: "gs_status (stateOf g') = Active"
      using inv(1) by (simp add: g' gs_status_stateOf)
    then have "scores (stateOf g') = Map.empty" by (simp add: scores_stateOf)
    with st g' show ?thesis by simp
  qed
  from s p a show ?thesis by blast
qed


theorem finished_game_requests_accepted_witness:
  "reachable all_passed_game \<and> gs_status (stateOf all_passed_game) = Finished \<and>
   skip (Some all_passed_game) Blue
     = Inr (all_passed_game\<lparr>moves := moves all_passed_game @ [pass_move Blue 5],
                             next_player_index := 1\<rparr>) \<and>
   skip (Some all_passed_game) Red = Inl not_your_turn \<and>
   place (Some all_passed_game)
      \<lparr>req_player_color = Blue, req_piece_key = ''I1'', req_rotation = 0, req_flipped = False,
       req_position = Some (0, 0)\<rparr>
     = Inr (all_passed_game\<lparr>moves := moves all_passed_game @ [placement_move Blue ''I1'' [(0, 0)] 5],
                             next_player_index := 1\<rparr>) \<and>
   gs_status (stateOf (all_passed_game\<lparr>moves := moves all_passed_game @ [placement_move Blue ''I1'' [(0, 0)] 5],
                             next_player_index := 1\<rparr>)) = Active \<and>
   scores (stateOf (all_passed_game\<lparr>moves := moves all_passed_game @ [placement_move Blue ''I1'' [(0, 0)] 5],
                             next_player_index := 1\<rparr>)) = Map.empty"
proof -
  let ?req = "\<lparr>req_player_color = Blue, req_piece_key = ''I1'', req_rotation = 0,
               req_flipped = False, req_position = Some (0, 0)\<rparr>"
  let ?g' = "all_passed_game\<lparr>moves := moves all_passed_game @ [placement_move Blue ''I1'' [(0, 0)] 5],
                             next_player_index := 1\<rparr>"
  have f: "gs_status (stateOf all_passed_game) = Finished"
    by (simp add: gs_status_stateOf everyonePassed_def slice_last_def all_passed_game_def
        DEFAULT_COLORS_def pass_move_def)
  note t = finished_game_requests_accepted[OF all_passed_game_reachable f]
  have e: "players all_passed_game ! next_player_index all_passed_game = Blue"
     "length (moves all_passed_game) + 1 = 5"
     "(next_player_index all_passed_game + 1) mod length (players all_passed_game) = 1"
    by (simp_all add: all_passed_game_def DEFAULT_COLORS_def)
  from t[of Blue] e
  have a: "skip (Some all_passed_game) Blue
     = Inr (all_passed_game\<lparr>moves := moves all_passed_game @ [pass_move Blue 5],
                             next_player_index := 1\<rparr>)"
    by simp
  from t[of Red] e
  have b: "skip (Some all_passed_game) Red = Inl not_your_turn"
    by simp
  have tr: "translate (transformShape [(0, 0)] 0 False) 0 0 = [(0, 0)]"
    by (simp add: translate_def transformShape_def rotate_point_def js_rem_def normalize_cells_def)
  have ps: "placeSets (moves all_passed_game) ([], (\<lambda>_. {})) = ([], (\<lambda>_. {}))"
    by (simp add: all_passed_game_def pass_move_def)
  have h: "map_of PIECES (req_piece_key ?req) = Some [(0, 0)] \<and>
        req_position ?req = Some (0, 0) \<and>
        players all_passed_game ! next_player_index all_passed_game = req_player_color ?req \<and>
        isWithinBoard (translate (transformShape [(0, 0)] (req_rotation ?req) (req_flipped ?req)) 0 0)
          (board_size all_passed_game) \<and>
        \<not> list_ex (map_has (fst (placeSets (moves all_passed_game) ([], (\<lambda>_. {})))))
            (translate (transformShape [(0, 0)] (req_rotation ?req) (req_flipped ?req)) 0 0) \<and>
        (if list_ex (\<lambda>m. player_color m = req_player_color ?req \<and> \<not> passed m) (moves all_passed_game)
         then hasCornerContact
                (translate (transformShape [(0, 0)] (req_rotation ?req) (req_flipped ?req)) 0 0)
                (snd (placeSets (moves all_passed_game) ([], (\<lambda>_. {}))) (req_player_color ?req))
         else START_CORNERS (req_player_color ?req)
                \<in> set (translate (transformShape [(0, 0)] (req_rotation ?req) (req_flipped ?req)) 0 0)) \<and>
        \<not> hasEdgeContact
            (translate (transformShape [(0, 0)] (req_rotation ?req) (req_flipped ?req)) 0 0)
            (snd (placeSets (moves all_passed_game) ([], (\<lambda>_. {}))) (req_player_color ?req))"
    by (simp add: tr ps e(1) PIECES_def isWithinBoard_def map_has_def hasEdgeContact_def
        all_passed_game_def pass_move_def DEFAULT_COLORS_def)
  from t[of Blue] h
  have "place (Some all_passed_game) ?req =
          Inr (all_passed_game\<lparr>moves := moves all_passed_game @
                [\<lparr>player_color = req_player_color ?req,
                  piece_key = Some (req_piece_key ?req),
                  rotation = Some (to_int32 (req_rotation ?req)),
                  flipped = Some (req_flipped ?req),
                  cells = Some (translate (transformShape [(0, 0)] (req_rotation ?req) (req_flipped ?req)) 0 0),
                  passed = False,
                  turn_number = length (moves all_passed_game) + 1\<rparr>],
                next_player_index :=
                  (next_player_index all_passed_game + 1) mod length (players all_passed_game)\<rparr>)"
    by blast
  moreover have "length (moves all_passed_game) = 4" "next_player_index all_passed_game = 0"
    "length (players all_passed_game) = 4"
    by (simp_all add: all_passed_game_def DEFAULT_COLORS_def)
  ultimately have p: "place (Some all_passed_game) ?req = Inr ?g'"
    by (simp add: tr placement_move_def to_int32_def)
  from t[of Blue] p
  have c: "gs_status (stateOf ?g') = Active \<and> scores (stateOf ?g') = Map.empty"
    by blast
  from all_passed_game_reachable f a b p c show ?thesis by blast
qed

section \<open>Client and server starting corners\<close>

lemma red_to_move_game_run:
  "run (createGame None) [SkipRequest Blue, SkipRequest Yellow] = Inr red_to_move_game"
  by code_simp

text \<open>
  C10 fails on the code. The client's \<open>cornerFor\<close> and the server's \<open>START_CORNERS\<close> agree
  for blue and yellow and are swapped for red and green. With red on turn for its first
  move, the one-cell piece at \<open>(0,19)\<close> is accepted by the server while the preview
  calls it invalid, and at \<open>(19,19)\<close> the preview calls it valid while the server rejects
  it with \<open>first_move_must_cover_corner\<close>.
\<close>

theorem cornerFor_differs_from_START_CORNERS:
  "cornerFor Blue = START_CORNERS Blue \<and> cornerFor Yellow = START_CORNERS Yellow \<and>
   cornerFor Red = (19, 19) \<and> START_CORNERS Red = (0, 19) \<and>
   cornerFor Green = (0, 19) \<and> START_CORNERS Green = (19, 19) \<and>
   run (createGame None) [SkipRequest Blue, SkipRequest Yellow] = Inr red_to_move_game \<and>
   place (Some red_to_move_game)
      \<lparr>req_player_color = Red, req_piece_key = ''I1'', req_rotation = 0, req_flipped = False,
       req_position = Some (0, 19)\<rparr>
     = Inr (red_to_move_game\<lparr>moves := moves red_to_move_game @ [placement_move Red ''I1'' [(0, 19)] 3],
                             next_player_index := 3\<rparr>) \<and>
   canPlaceLocal (map_of PIECES ''I1'') 0 False (Some (0, 19)) (Some Red)
      (boardOccupancy (moves red_to_move_game) (\<lambda>_. None)) = False \<and>
   place (Some red_to_move_game)
      \<lparr>req_player_color = Red, req_piece_key = ''I1'', req_rotation = 0, req_flipped = False,
       req_position = Some (19, 19)\<rparr>
     = Inl first_move_must_cover_corner \<and>
   canPlaceLocal (map_of PIECES ''I1'') 0 False (Some (19, 19)) (Some Red)
      (boardOccupancy (moves red_to_move_game) (\<lambda>_. None)) = True"
proof -
  have c: "cornerFor Blue = START_CORNERS Blue \<and> cornerFor Yellow = START_CORNERS Yellow \<and>
   cornerFor Red = (19, 19) \<and> START_CORNERS Red = (0, 19) \<and>
   cornerFor Green = (0, 19) \<and> START_CORNERS Green = (19, 19)"
    by (simp add: BOARD_SIZE_def)
  have p1: "place (Some red_to_move_game)
      \<lparr>req_player_color = Red, req_piece_key = ''I1'', req_rotation = 0, req_flipped = False,
       req_position = Some (0, 19)\<rparr>
     = Inr (red_to_move_game\<lparr>moves := moves red_to_move_game @ [placement_move Red ''I1'' [(0, 19)] 3],
                             next_player_index := 3\<rparr>)"
    by code_simp
  have p2: "place (Some red_to_move_game)
      \<lparr>req_player_color = Red, req_piece_key = ''I1'', req_rotation = 0, req_flipped = False,
       req_position = Some (19, 19)\<rparr>
     = Inl first_move_must_cover_corner"
    by code_simp
  have c1: "canPlaceLocal (map_of PIECES ''I1'') 0 False (Some (0, 19)) (Some Red)
      (boardOccupancy (moves red_to_move_game) (\<lambda>_. None)) = False"
    by code_simp
  have c2: "canPlaceLocal (map_of PIECES ''I1'') 0 False (Some (19, 19)) (Some Red)
      (boardOccupancy (moves red_to_move_game) (\<lambda>_. None)) = True"
    by code_simp
  from c p1 p2 c1 c2 red_to_move_game_run show ?thesis by blast
qed

section \<open>Scores\<close>

text \<open>
  The score of a colour from its set of used pieces: with pieces left it is minus the
  number of their cells; with none left it is 20, since the second bonus only asks
  whether \<open>I1\<close> was used at all.
\<close>

lemma foldl_sizeOf: "foldl (\<lambda>a k. a + sizeOf k) a ks = a + sum_list (map sizeOf ks)"
  by (induction ks arbitrary: a) simp_all

lemma score_of_some_unused:
  "remPieces used \<noteq> [] \<Longrightarrow> score_of used = - sum_list (map sizeOf (remPieces used))"
  by (simp add: score_of_def foldl_sizeOf)

lemma score_of_all_used:
  assumes "remPieces used = []"
  shows "score_of used = 20"
proof -
  have "''I1'' \<in> set pieceKeys" by (simp add: pieceKeys_def PIECES_def)
  with assms have "Some ''I1'' \<in> used"
    by (auto simp: remPieces_def filter_empty_conv)
  with assms show ?thesis by (simp add: score_of_def)
qed

text \<open>
  C7 fails on the code. In the session \<open>blue_uses_all_session\<close> every request is accepted;
  blue places all 21 pieces, the one-cell piece first and \<open>T4\<close> last, and the game ends.
  Blue's last placement is not \<open>I1\<close>, and blue's score is 20, not 15.
\<close>

theorem all_pieces_used_scores_20_whatever_came_last:
  "(case run (createGame None) blue_uses_all_session of
      Inl e \<Rightarrow> False
    | Inr g \<Rightarrow>
        gs_status (stateOf g) = Finished \<and>
        remaining (stateOf g) Blue = Some [] \<and>
        map piece_key (filter (\<lambda>m. player_color m = Blue \<and> \<not> passed m) (moves g))
          = map (\<lambda>(k, x, y). Some k) blue_plan \<and>
        last (map (\<lambda>(k, x, y). k) blue_plan) = ''T4'' \<and>
        scores (stateOf g) Blue = Some 20)"
  by code_simp

section \<open>Occupancy of accepted games\<close>

text \<open>
  As long as no cell is claimed twice, \<^verbatim>\<open>occupied.set\<close> only ever appends, and the
  projected map is the list of claims.
\<close>

lemma claimed_claims: "claimed ms = map fst (claims ms)"
  by (induction ms) (auto simp: comp_def split: option.splits)

lemma claims_append: "claims (ms @ ms') = claims ms @ claims ms'"
  by (induction ms) simp_all

lemma claimed_append: "claimed (ms @ ms') = claimed ms @ claimed ms'"
  by (induction ms) simp_all

lemma update_fresh: "k \<notin> fst ` set al \<Longrightarrow> AList.update k v al = al @ [(k, v)]"
  by (induction al) auto

lemma claim_cells_fresh:
  "distinct (map fst occ @ cs) \<Longrightarrow>
   fst (claim_cells c cs (occ, sets)) = occ @ map (\<lambda>xy. (xy, c)) cs"
proof (induction cs arbitrary: occ sets)
  case Nil
  show ?case by simp
next
  case (Cons xy cs)
  from Cons.prems have fresh: "xy \<notin> fst ` set occ" by auto
  from Cons.prems have "distinct (map fst (occ @ [(xy, c)]) @ cs)" by auto
  from Cons.IH[OF this] show ?case by (simp add: update_fresh[OF fresh])
qed

lemma project_occupied:
  "distinct (map fst (occupied acc) @ claimed ms) \<Longrightarrow>
   occupied (project ms acc) = occupied acc @ claims ms"
proof (induction ms arbitrary: acc)
  case Nil
  show ?case by simp
next
  case (Cons m ms)
  show ?case
  proof (cases "cells m")
    case None
    with Cons.prems Cons.IH[of acc] show ?thesis by simp
  next
    case (Some cs)
    show ?thesis
    proof (cases "passed m")
      case True
      with Some Cons.prems Cons.IH[of acc] show ?thesis by simp
    next
      case False
      obtain occ' sets' where cc:
        "claim_cells (player_color m) cs (occupied acc, playerCells acc) = (occ', sets')"
        by (cases "claim_cells (player_color m) cs (occupied acc, playerCells acc)")
      from Cons.prems Some False have d: "distinct (map fst (occupied acc) @ cs @ claimed ms)"
        by simp
      then have "distinct (map fst (occupied acc) @ cs)" by auto
      from claim_cells_fresh[OF this, of "player_color m" "playerCells acc"] cc
      have occ': "occ' = occupied acc @ map (\<lambda>xy. (xy, player_color m)) cs" by simp
      let ?acc' = "\<lparr>occupied = occ', playerCells = sets',
                     usedPieces = (usedPieces acc)
                       (player_color m := insert (piece_key m) (usedPieces acc (player_color m)))\<rparr>"
      have "distinct (map fst (occupied ?acc') @ claimed ms)"
        using d occ' by (simp add: comp_def)
      from Cons.IH[OF this] show ?thesis
        using Some False cc occ' by simp
    qed
  qed
qed

text \<open>The cells of a placement are pairwise different: every step of the transform is injective.\<close>

lemma PIECES_shapes: "list_all (\<lambda>(k, cs). distinct cs \<and> cs \<noteq> []) PIECES"
  by (simp add: PIECES_def)

lemma PIECES_shape_distinct: "map_of PIECES k = Some shape \<Longrightarrow> distinct shape"
  using PIECES_shapes by (auto simp: list_all_iff dest: map_of_SomeD)

lemma inj_rot90_spec: "inj rot90_spec"
  by (auto simp: inj_def rot90_spec_def)

lemma distinct_map_inj: "inj f \<Longrightarrow> distinct xs \<Longrightarrow> distinct (map f xs)"
  by (simp add: distinct_map inj_on_subset[OF _ subset_UNIV])

lemma transformShape_distinct:
  assumes "distinct shape"
  shows "distinct (transformShape shape r fl)"
proof -
  have i1: "inj mirror_spec" by (auto simp: inj_def mirror_spec_def)
  have i2: "inj (rot90_spec ^^ n)" for n
  proof (induction n)
    case 0
    show ?case by simp
  next
    case (Suc n)
    show ?case unfolding funpow.simps by (rule inj_compose[OF inj_rot90_spec Suc])
  qed
  have i3: "inj (\<lambda>(x, y). (x - a, y - b))" for a b :: int by (auto simp: inj_def)
  have d1: "distinct (if fl then map mirror_spec shape else shape)"
    using assms by (simp add: distinct_map_inj[OF i1])
  have d2: "distinct (map (rot90_spec ^^ nat (r mod 4)) (if fl then map mirror_spec shape else shape))"
    by (rule distinct_map_inj[OF i2 d1])
  show ?thesis
    unfolding transformShape_eq_spec transform_spec_def normalize_spec_def
    by (rule distinct_map_inj[OF i3 d2])
qed

lemma translate_distinct: "distinct cs \<Longrightarrow> distinct (translate cs dx dy)"
  unfolding translate_def by (rule distinct_map_inj) (auto simp: inj_def)


text \<open>What an accepted placement appends, and why it cannot overlap.\<close>

lemma place_accepted_cells:
  assumes "place (Some g) req = Inr g'"
  obtains shape px py where
    "map_of PIECES (req_piece_key req) = Some shape"
    and "req_position req = Some (px, py)"
    and "set (translate (transformShape shape (req_rotation req) (req_flipped req)) px py)
           \<inter> set (claimed (moves g)) = {}"
    and "g' = g\<lparr>moves := moves g @
                  [\<lparr>player_color = req_player_color req,
                    piece_key = Some (req_piece_key req),
                    rotation = Some (to_int32 (req_rotation req)),
                    flipped = Some (req_flipped req),
                    cells = Some (translate (transformShape shape (req_rotation req) (req_flipped req)) px py),
                    passed = False,
                    turn_number = length (moves g) + 1\<rparr>],
                 next_player_index := (next_player_index g + 1) mod length (players g)\<rparr>"
proof -
  obtain shape where l: "PIECES_lookup (req_piece_key req) = Own shape"
    using assms
    by (cases "PIECES_lookup (req_piece_key req)")
       (auto simp: place_Some_claimed split: option.splits prod.splits if_splits)
  then have m: "map_of PIECES (req_piece_key req) = Some shape"
    by (auto simp: PIECES_lookup_def split: option.splits if_splits)
  obtain px py where p: "req_position req = Some (px, py)"
    using assms l
    by (cases "req_position req") (auto simp: place_Some_claimed)
  let ?placed = "translate (transformShape shape (req_rotation req) (req_flipped req)) px py"
  from assms l p have "\<not> list_ex (\<lambda>p. p \<in> set (claimed (moves g))) ?placed"
    by (auto simp: place_Some_claimed Let_def split: if_splits)
  then have d: "set ?placed \<inter> set (claimed (moves g)) = {}"
    by (auto simp: list_ex_iff)
  from assms l p have g': "g' = g\<lparr>moves := moves g @
                  [\<lparr>player_color = req_player_color req,
                    piece_key = Some (req_piece_key req),
                    rotation = Some (to_int32 (req_rotation req)),
                    flipped = Some (req_flipped req),
                    cells = Some ?placed,
                    passed = False,
                    turn_number = length (moves g) + 1\<rparr>],
                 next_player_index := (next_player_index g + 1) mod length (players g)\<rparr>"
    by (auto simp: place_Some_claimed Let_def split: if_splits option.splits)
  from m p d g' show ?thesis by (rule that)
qed

lemma reachable_claimed_distinct: "reachable g \<Longrightarrow> distinct (claimed (moves g))"
proof (induction rule: reachable.induct)
  case (created ps)
  show ?case by (simp add: createGame_def)
next
  case (placed g req g')
  from placed.hyps(2) obtain shape px py where
    m: "map_of PIECES (req_piece_key req) = Some shape"
    and d: "set (translate (transformShape shape (req_rotation req) (req_flipped req)) px py)
           \<inter> set (claimed (moves g)) = {}"
    and g': "g' = g\<lparr>moves := moves g @
                  [\<lparr>player_color = req_player_color req,
                    piece_key = Some (req_piece_key req),
                    rotation = Some (to_int32 (req_rotation req)),
                    flipped = Some (req_flipped req),
                    cells = Some (translate (transformShape shape (req_rotation req) (req_flipped req)) px py),
                    passed = False,
                    turn_number = length (moves g) + 1\<rparr>],
                 next_player_index := (next_player_index g + 1) mod length (players g)\<rparr>"
    by (rule place_accepted_cells)
  have "distinct (translate (transformShape shape (req_rotation req) (req_flipped req)) px py)"
    by (intro translate_distinct transformShape_distinct PIECES_shape_distinct[OF m])
  with placed.IH d show ?case
    by (auto simp: g' claimed_append)
next
  case (skipped g pc g')
  from skip_accepted(3)[OF skipped.hyps(2)] skipped.IH show ?case
    by (simp add: claimed_append pass_move_def)
qed

lemma reachable_occupied_claims:
  assumes "reachable g"
  shows "occupied (project (moves g) empty_projection) = claims (moves g)"
  using project_occupied[of empty_projection "moves g"] reachable_claimed_distinct[OF assms]
  by (simp add: empty_projection_def)

text \<open>
  C1. In every game reached through accepted requests no cell is claimed twice, neither by
  two moves nor within one move, whatever the colours: the claimed cells are pairwise
  different, the projected occupancy is exactly the list of claims (no entry was ever
  overwritten), and its size is the number of claimed cells. The validator enforces it: a
  request by the colour on turn, for a catalog piece at a given position, whose cells are
  on the board and one of which is a key of the occupancy, is rejected with \<open>overlap\<close>.
\<close>

theorem no_cell_claimed_twice:
  assumes "reachable g"
  shows "distinct (map fst (claims (moves g))) \<and>
         occupied (project (moves g) empty_projection) = claims (moves g) \<and>
         occupiedCount (stateOf g) = length (claims (moves g)) \<and>
         (\<forall>req shape px py.
            map_of PIECES (req_piece_key req) = Some shape \<and>
            req_position req = Some (px, py) \<and>
            players g ! next_player_index g = req_player_color req \<and>
            isWithinBoard (translate (transformShape shape (req_rotation req) (req_flipped req)) px py)
              (board_size g) \<and>
            set (translate (transformShape shape (req_rotation req) (req_flipped req)) px py)
              \<inter> fst ` set (occupied (project (moves g) empty_projection)) \<noteq> {}
            \<longrightarrow> place (Some g) req = Inl overlap)"
proof -
  have d: "distinct (map fst (claims (moves g)))"
    using reachable_claimed_distinct[OF assms] by (simp add: claimed_claims)
  note o = reachable_occupied_claims[OF assms]
  have c: "occupiedCount (stateOf g) = length (claims (moves g))"
    by (simp add: stateOf_def Let_def o)
  from reachable_invariant[OF assms] have t: "next_player_index g < length (players g)" by simp
  have v: "place (Some g) req = Inl overlap"
    if "map_of PIECES (req_piece_key req) = Some shape"
      and "req_position req = Some (px, py)"
      and "players g ! next_player_index g = req_player_color req"
      and "isWithinBoard (translate (transformShape shape (req_rotation req) (req_flipped req)) px py)
              (board_size g)"
      and "set (translate (transformShape shape (req_rotation req) (req_flipped req)) px py)
              \<inter> fst ` set (occupied (project (moves g) empty_projection)) \<noteq> {}"
    for req shape px py
  proof -
    from that(5) have "list_ex (\<lambda>p. p \<in> set (claimed (moves g)))
        (translate (transformShape shape (req_rotation req) (req_flipped req)) px py)"
      unfolding o claimed_claims list_ex_iff by auto
    with that(1-4) t show ?thesis
      by (simp add: place_Some_claimed PIECES_lookup_Own Let_def)
  qed
  from d o c v show ?thesis by blast
qed

lemma blue_cornered_game_run:
  "run (createGame None) [put Blue ''I1'' 0 0, SkipRequest Yellow, SkipRequest Red, SkipRequest Green]
     = Inr blue_cornered_game"
  by code_simp

lemma blue_cornered_game_reachable: "reachable blue_cornered_game"
  using run_reachable[OF reachable.created blue_cornered_game_run] .

theorem no_cell_claimed_twice_witness:
  "reachable blue_cornered_game \<and>
   claims (moves blue_cornered_game) = [((0, 0), Blue)] \<and>
   occupied (project (moves blue_cornered_game) empty_projection) = [((0, 0), Blue)] \<and>
   occupiedCount (stateOf blue_cornered_game) = 1 \<and>
   place (Some blue_cornered_game)
      \<lparr>req_player_color = Blue, req_piece_key = ''I2'', req_rotation = 1, req_flipped = False,
       req_position = Some (0, 0)\<rparr> = Inl overlap"
proof -
  let ?req = "\<lparr>req_player_color = Blue, req_piece_key = ''I2'', req_rotation = 1,
               req_flipped = False, req_position = Some (0, 0)\<rparr>"
  note t = no_cell_claimed_twice[OF blue_cornered_game_reachable]
  have c: "claims (moves blue_cornered_game) = [((0, 0), Blue)]"
    by (simp add: blue_cornered_game_def placement_move_def pass_move_def)
  have tr: "translate (transformShape [(0, 0), (1, 0)] 1 False) 0 0 = [(0, 1), (0, 0)]"
    by (simp add: translate_def transformShape_def rotate_point_def js_rem_def normalize_cells_def)
  have h: "map_of PIECES (req_piece_key ?req) = Some [(0, 0), (1, 0)] \<and>
      req_position ?req = Some (0, 0) \<and>
      players blue_cornered_game ! next_player_index blue_cornered_game = req_player_color ?req \<and>
      isWithinBoard (translate (transformShape [(0, 0), (1, 0)] (req_rotation ?req) (req_flipped ?req)) 0 0)
        (board_size blue_cornered_game) \<and>
      set (translate (transformShape [(0, 0), (1, 0)] (req_rotation ?req) (req_flipped ?req)) 0 0)
        \<inter> fst ` set (occupied (project (moves blue_cornered_game) empty_projection)) \<noteq> {}"
    using t c
    by (simp add: tr PIECES_def blue_cornered_game_def DEFAULT_COLORS_def isWithinBoard_def)
  from t have o: "occupied (project (moves blue_cornered_game) empty_projection)
      = claims (moves blue_cornered_game)" by blast
  from t have n: "occupiedCount (stateOf blue_cornered_game) = length (claims (moves blue_cornered_game))"
    by blast
  from t h have p: "place (Some blue_cornered_game) ?req = Inl overlap" by blast
  from blue_cornered_game_reachable c o n p show ?thesis by simp
qed

section \<open>Order of the contact checks and the first move\<close>

text \<open>A colour without a placement in the log owns no cell, so nothing can touch it.\<close>

lemma first_move_no_cells:
  "\<not> list_ex (\<lambda>m. player_color m = c \<and> \<not> passed m) ms \<Longrightarrow>
   claimed (filter (\<lambda>m. player_color m = c) ms) = []"
  by (induction ms) (auto split: option.splits)

lemma hasEdgeContact_empty: "\<not> hasEdgeContact cs {}"
  by (simp add: hasEdgeContact_def list_ex_iff split_beta)

text \<open>
  C2 (as amended). The validator evaluates the corner rule before the edge rule, and the
  first failing check wins. Take a placement by the colour on turn that is not the
  colour's first, for a catalog piece at a given position, on the board and free of
  overlap, and that is 4-directionally adjacent to a cell of the same colour. If none of
  its cells is diagonally adjacent to a cell of the same colour it is rejected with
  \<open>must_touch_same_color_corner\<close>; if one is, it is rejected with
  \<open>cannot_touch_same_color_edge\<close>.
\<close>

theorem corner_rule_before_edge_rule:
  assumes "map_of PIECES (req_piece_key req) = Some shape"
    and "req_position req = Some (px, py)"
    and "next_player_index g < length (players g)"
    and "players g ! next_player_index g = req_player_color req"
    and "placed = translate (transformShape shape (req_rotation req) (req_flipped req)) px py"
    and "isWithinBoard placed (board_size g)"
    and "\<not> list_ex (map_has (fst (placeSets (moves g) ([], (\<lambda>_. {}))))) placed"
    and "list_ex (\<lambda>m. player_color m = req_player_color req \<and> \<not> passed m) (moves g)"
    and "mySet = snd (placeSets (moves g) ([], (\<lambda>_. {}))) (req_player_color req)"
    and "hasEdgeContact placed mySet"
  shows "place (Some g) req =
     (if hasCornerContact placed mySet then Inl cannot_touch_same_color_edge
      else Inl must_touch_same_color_corner)"
  using assms
  by (simp add: place_Some PIECES_lookup_Own Let_def split_def)


text \<open>
  C2 as stated fails: blue owns \<open>(0,0)\<close> and is on turn; the one-cell piece at \<open>(1,0)\<close>
  touches \<open>(0,0)\<close> by an edge and no blue cell by a corner, and the rejection is
  \<open>must_touch_same_color_corner\<close>, not \<open>cannot_touch_same_color_edge\<close>.
\<close>

theorem edge_only_contact_rejected_as_corner:
  "run (createGame None) [put Blue ''I1'' 0 0, SkipRequest Yellow, SkipRequest Red, SkipRequest Green]
     = Inr blue_cornered_game \<and>
   claims (moves blue_cornered_game) = [((0, 0), Blue)] \<and>
   translate (transformShape [(0, 0)] 0 False) 1 0 = [(1, 0)] \<and>
   hasEdgeContact [(1, 0)] {(0, 0)} \<and>
   \<not> hasCornerContact [(1, 0)] {(0, 0)} \<and>
   place (Some blue_cornered_game)
      \<lparr>req_player_color = Blue, req_piece_key = ''I1'', req_rotation = 0, req_flipped = False,
       req_position = Some (1, 0)\<rparr> = Inl must_touch_same_color_corner"
proof -
  have c: "claims (moves blue_cornered_game) = [((0, 0), Blue)]"
    by (simp add: blue_cornered_game_def placement_move_def pass_move_def)
  have t: "translate (transformShape [(0, 0)] 0 False) 1 0 = [(1, 0)]"
    by (simp add: translate_def transformShape_def rotate_point_def js_rem_def normalize_cells_def)
  have e: "hasEdgeContact [(1, 0)] {(0, 0)}" by (simp add: hasEdgeContact_def)
  have n: "\<not> hasCornerContact [(1, 0)] {(0, 0)}" by (simp add: hasCornerContact_def)
  have p: "place (Some blue_cornered_game)
      \<lparr>req_player_color = Blue, req_piece_key = ''I1'', req_rotation = 0, req_flipped = False,
       req_position = Some (1, 0)\<rparr> = Inl must_touch_same_color_corner"
    by code_simp
  from blue_cornered_game_run c t e n p show ?thesis by blast
qed

lemma blue_cornered_game_sets:
  "placeSets (moves blue_cornered_game) ([], (\<lambda>_. {}))
     = ([((0, 0), Blue)], (\<lambda>_. {})(Blue := {(0, 0)}))"
  by (simp add: blue_cornered_game_def placement_move_def pass_move_def)

theorem corner_rule_before_edge_rule_witness:
  "hasEdgeContact [(1, 0)] {(0, 0)} \<and> \<not> hasCornerContact [(1, 0)] {(0, 0)} \<and>
   place (Some blue_cornered_game)
      \<lparr>req_player_color = Blue, req_piece_key = ''I1'', req_rotation = 0, req_flipped = False,
       req_position = Some (1, 0)\<rparr> = Inl must_touch_same_color_corner \<and>
   hasEdgeContact [(1, 0), (1, 1), (2, 0)] {(0, 0)} \<and>
   hasCornerContact [(1, 0), (1, 1), (2, 0)] {(0, 0)} \<and>
   place (Some blue_cornered_game)
      \<lparr>req_player_color = Blue, req_piece_key = ''V3'', req_rotation = 0, req_flipped = False,
       req_position = Some (1, 0)\<rparr> = Inl cannot_touch_same_color_edge"
proof -
  let ?r1 = "\<lparr>req_player_color = Blue, req_piece_key = ''I1'', req_rotation = 0,
              req_flipped = False, req_position = Some (1, 0)\<rparr>"
  let ?r2 = "\<lparr>req_player_color = Blue, req_piece_key = ''V3'', req_rotation = 0,
              req_flipped = False, req_position = Some (1, 0)\<rparr>"
  have t1: "[(1, 0)] = translate (transformShape [(0, 0)] (req_rotation ?r1) (req_flipped ?r1)) 1 0"
    by (simp add: translate_def transformShape_def rotate_point_def js_rem_def normalize_cells_def)
  have t2: "[(1, 0), (1, 1), (2, 0)]
      = translate (transformShape [(0, 0), (0, 1), (1, 0)] (req_rotation ?r2) (req_flipped ?r2)) 1 0"
    by (simp add: translate_def transformShape_def rotate_point_def js_rem_def normalize_cells_def)
  have g: "next_player_index blue_cornered_game < length (players blue_cornered_game)"
    "players blue_cornered_game ! next_player_index blue_cornered_game = Blue"
    "board_size blue_cornered_game = 20"
    "list_ex (\<lambda>m. player_color m = Blue \<and> \<not> passed m) (moves blue_cornered_game)"
    by (simp_all add: blue_cornered_game_def DEFAULT_COLORS_def placement_move_def)
  have my: "{(0, 0)} = snd (placeSets (moves blue_cornered_game) ([], (\<lambda>_. {}))) (req_player_color ?r1)"
    "{(0, 0)} = snd (placeSets (moves blue_cornered_game) ([], (\<lambda>_. {}))) (req_player_color ?r2)"
    by (simp_all add: blue_cornered_game_sets)
  have k: "map_of PIECES (req_piece_key ?r1) = Some [(0, 0)]"
    "map_of PIECES (req_piece_key ?r2) = Some [(0, 0), (0, 1), (1, 0)]"
    by (simp_all add: PIECES_def)
  have pos: "req_position ?r1 = Some (1, 0)" "req_position ?r2 = Some (1, 0)" by simp_all
  have turn: "players blue_cornered_game ! next_player_index blue_cornered_game = req_player_color ?r1"
    "players blue_cornered_game ! next_player_index blue_cornered_game = req_player_color ?r2"
    using g(2) by simp_all
  have nf: "list_ex (\<lambda>m. player_color m = req_player_color ?r1 \<and> \<not> passed m) (moves blue_cornered_game)"
    "list_ex (\<lambda>m. player_color m = req_player_color ?r2 \<and> \<not> passed m) (moves blue_cornered_game)"
    using g(4) by simp_all
  have inb: "isWithinBoard [(1, 0)] (board_size blue_cornered_game)"
    "isWithinBoard [(1, 0), (1, 1), (2, 0)] (board_size blue_cornered_game)"
    by (simp_all add: g(3) isWithinBoard_def)
  have free: "\<not> list_ex (map_has (fst (placeSets (moves blue_cornered_game) ([], (\<lambda>_. {}))))) [(1, 0)]"
    "\<not> list_ex (map_has (fst (placeSets (moves blue_cornered_game) ([], (\<lambda>_. {})))))
        [(1, 0), (1, 1), (2, 0)]"
    by (simp_all add: blue_cornered_game_sets map_has_def)
  have e1: "hasEdgeContact [(1, 0)] {(0, 0)}" by (simp add: hasEdgeContact_def)
  have n1: "\<not> hasCornerContact [(1, 0)] {(0, 0)}" by (simp add: hasCornerContact_def)
  have e2: "hasEdgeContact [(1, 0), (1, 1), (2, 0)] {(0, 0)}" by (simp add: hasEdgeContact_def)
  have n2: "hasCornerContact [(1, 0), (1, 1), (2, 0)] {(0, 0)}" by (simp add: hasCornerContact_def)
  have p1: "place (Some blue_cornered_game) ?r1 = Inl must_touch_same_color_corner"
    using corner_rule_before_edge_rule
      [OF k(1) pos(1) g(1) turn(1) t1 inb(1) free(1) nf(1) my(1) e1] n1
    by (simp only: if_False)
  have p2: "place (Some blue_cornered_game) ?r2 = Inl cannot_touch_same_color_edge"
    using corner_rule_before_edge_rule
      [OF k(2) pos(2) g(1) turn(2) t2 inb(2) free(2) nf(2) my(2) e2] n2
    by (simp only: if_True)
  from e1 n1 p1 e2 n2 p2 show ?thesis by blast
qed

text \<open>
  C3. Let the log of a reachable game hold no placement by the requesting colour. The
  server's corner for that colour is the one the specification names for the game's
  board size. The request is accepted only if the appended cells contain that corner.
  If the request is by the colour on turn, for a catalog piece at a given position, on
  the board and free of overlap, then it is accepted (the move is appended and the turn
  pointer advanced) when one of its cells is the corner, and rejected with
  \<open>first_move_must_cover_corner\<close> otherwise.
\<close>

theorem first_move_must_cover_corner_rule:
  assumes "reachable g"
    and "\<not> list_ex (\<lambda>m. player_color m = req_player_color req \<and> \<not> passed m) (moves g)"
  shows "START_CORNERS (req_player_color req)
           = starting_corner_spec (board_size g) (req_player_color req) \<and>
         (\<forall>g'. place (Some g) req = Inr g' \<longrightarrow>
            (\<exists>cs. cells (last (moves g')) = Some cs \<and>
                  starting_corner_spec (board_size g) (req_player_color req) \<in> set cs)) \<and>
         (\<forall>shape px py.
            map_of PIECES (req_piece_key req) = Some shape \<and>
            req_position req = Some (px, py) \<and>
            players g ! next_player_index g = req_player_color req \<and>
            isWithinBoard (translate (transformShape shape (req_rotation req) (req_flipped req)) px py)
              (board_size g) \<and>
            \<not> list_ex (map_has (fst (placeSets (moves g) ([], (\<lambda>_. {})))))
                (translate (transformShape shape (req_rotation req) (req_flipped req)) px py)
            \<longrightarrow>
            (if starting_corner_spec (board_size g) (req_player_color req)
                  \<in> set (translate (transformShape shape (req_rotation req) (req_flipped req)) px py)
             then place (Some g) req =
                    Inr (g\<lparr>moves := moves g @
                          [\<lparr>player_color = req_player_color req,
                            piece_key = Some (req_piece_key req),
                            rotation = Some (to_int32 (req_rotation req)),
                            flipped = Some (req_flipped req),
                            cells = Some (translate (transformShape shape (req_rotation req) (req_flipped req)) px py),
                            passed = False,
                            turn_number = length (moves g) + 1\<rparr>],
                          next_player_index := (next_player_index g + 1) mod length (players g)\<rparr>)
             else place (Some g) req = Inl first_move_must_cover_corner))"
proof -
  let ?c = "req_player_color req"
  from reachable_invariant[OF assms(1)]
  have bs: "board_size g = 20" and t: "next_player_index g < length (players g)" by simp_all
  have corner: "START_CORNERS ?c = starting_corner_spec (board_size g) ?c"
    unfolding bs by (cases ?c) simp_all
  have mine: "snd (placeSets (moves g) ([], (\<lambda>_. {}))) ?c = {}"
    by (simp add: mySet_placeSets first_move_no_cells[OF assms(2)])
  have covers: "list_ex (\<lambda>p. fst p = fst k \<and> snd p = snd k) cs \<longleftrightarrow> k \<in> set cs"
    for k :: Cell and cs
    by (auto simp: list_ex_iff prod_eq_iff)
  have a: "\<exists>cs. cells (last (moves g')) = Some cs \<and> starting_corner_spec (board_size g) ?c \<in> set cs"
    if "place (Some g) req = Inr g'" for g'
    using that assms(2) unfolding corner[symmetric]
    by (auto simp: place_Some Let_def split_def covers
        split: Lookup.splits option.splits if_splits)
  have b: "(if starting_corner_spec (board_size g) ?c
                  \<in> set (translate (transformShape shape (req_rotation req) (req_flipped req)) px py)
             then place (Some g) req =
                    Inr (g\<lparr>moves := moves g @
                          [\<lparr>player_color = ?c,
                            piece_key = Some (req_piece_key req),
                            rotation = Some (to_int32 (req_rotation req)),
                            flipped = Some (req_flipped req),
                            cells = Some (translate (transformShape shape (req_rotation req) (req_flipped req)) px py),
                            passed = False,
                            turn_number = length (moves g) + 1\<rparr>],
                          next_player_index := (next_player_index g + 1) mod length (players g)\<rparr>)
             else place (Some g) req = Inl first_move_must_cover_corner)"
    if "map_of PIECES (req_piece_key req) = Some shape"
      and "req_position req = Some (px, py)"
      and "players g ! next_player_index g = ?c"
      and "isWithinBoard (translate (transformShape shape (req_rotation req) (req_flipped req)) px py)
              (board_size g)"
      and "\<not> list_ex (map_has (fst (placeSets (moves g) ([], (\<lambda>_. {})))))
                (translate (transformShape shape (req_rotation req) (req_flipped req)) px py)"
    for shape px py
    using that assms(2) t mine unfolding corner[symmetric]
    by (simp add: place_Some PIECES_lookup_Own Let_def split_def covers hasEdgeContact_empty)
  from corner a b show ?thesis by blast
qed


theorem first_move_must_cover_corner_rule_witness:
  "reachable (createGame None) \<and>
   \<not> list_ex (\<lambda>m. player_color m = Blue \<and> \<not> passed m) (moves (createGame None)) \<and>
   starting_corner_spec (board_size (createGame None)) Blue = (0, 0) \<and>
   place (Some (createGame None))
      \<lparr>req_player_color = Blue, req_piece_key = ''V3'', req_rotation = 0, req_flipped = False,
       req_position = Some (0, 0)\<rparr>
     = Inr ((createGame None)
          \<lparr>moves := [placement_move Blue ''V3'' [(0, 0), (0, 1), (1, 0)] 1], next_player_index := 1\<rparr>) \<and>
   place (Some (createGame None))
      \<lparr>req_player_color = Blue, req_piece_key = ''V3'', req_rotation = 0, req_flipped = False,
       req_position = Some (1, 0)\<rparr>
     = Inl first_move_must_cover_corner"
proof -
  let ?g = "createGame None"
  let ?rA = "\<lparr>req_player_color = Blue, req_piece_key = ''V3'', req_rotation = 0,
              req_flipped = False, req_position = Some (0, 0)\<rparr>"
  let ?rB = "\<lparr>req_player_color = Blue, req_piece_key = ''V3'', req_rotation = 0,
              req_flipped = False, req_position = Some (1, 0)\<rparr>"
  have r: "reachable ?g" by (rule reachable.created)
  have f: "\<not> list_ex (\<lambda>m. player_color m = Blue \<and> \<not> passed m) (moves ?g)"
    by (simp add: createGame_def)
  have fA: "\<not> list_ex (\<lambda>m. player_color m = req_player_color ?rA \<and> \<not> passed m) (moves ?g)"
    and fB: "\<not> list_ex (\<lambda>m. player_color m = req_player_color ?rB \<and> \<not> passed m) (moves ?g)"
    using f by simp_all
  have c: "starting_corner_spec (board_size ?g) Blue = (0, 0)" by simp
  have tA: "translate (transformShape [(0, 0), (0, 1), (1, 0)] 0 False) 0 0 = [(0, 0), (0, 1), (1, 0)]"
    by (simp add: translate_def transformShape_def rotate_point_def js_rem_def normalize_cells_def)
  have tB: "translate (transformShape [(0, 0), (0, 1), (1, 0)] 0 False) 1 0 = [(1, 0), (1, 1), (2, 0)]"
    by (simp add: translate_def transformShape_def rotate_point_def js_rem_def normalize_cells_def)
  have k: "map_of PIECES ''V3'' = Some [(0, 0), (0, 1), (1, 0)]" by (simp add: PIECES_def)
  have gf: "players ?g ! 0 = Blue" "board_size ?g = 20" "moves ?g = []"
    "next_player_index ?g = 0" "length (players ?g) = 4"
    by (simp_all add: createGame_def DEFAULT_COLORS_def)
  from first_move_must_cover_corner_rule[OF r fA]
  have "map_of PIECES (req_piece_key ?rA) = Some [(0, 0), (0, 1), (1, 0)] \<and>
        req_position ?rA = Some (0, 0) \<and>
        players ?g ! next_player_index ?g = req_player_color ?rA \<and>
        isWithinBoard (translate (transformShape [(0, 0), (0, 1), (1, 0)] (req_rotation ?rA) (req_flipped ?rA)) 0 0)
          (board_size ?g) \<and>
        \<not> list_ex (map_has (fst (placeSets (moves ?g) ([], (\<lambda>_. {})))))
            (translate (transformShape [(0, 0), (0, 1), (1, 0)] (req_rotation ?rA) (req_flipped ?rA)) 0 0)
        \<longrightarrow>
        (if starting_corner_spec (board_size ?g) (req_player_color ?rA)
              \<in> set (translate (transformShape [(0, 0), (0, 1), (1, 0)] (req_rotation ?rA) (req_flipped ?rA)) 0 0)
         then place (Some ?g) ?rA =
                Inr (?g\<lparr>moves := moves ?g @
                      [\<lparr>player_color = req_player_color ?rA,
                        piece_key = Some (req_piece_key ?rA),
                        rotation = Some (to_int32 (req_rotation ?rA)),
                        flipped = Some (req_flipped ?rA),
                        cells = Some (translate (transformShape [(0, 0), (0, 1), (1, 0)] (req_rotation ?rA) (req_flipped ?rA)) 0 0),
                        passed = False,
                        turn_number = length (moves ?g) + 1\<rparr>],
                      next_player_index := (next_player_index ?g + 1) mod length (players ?g)\<rparr>)
         else place (Some ?g) ?rA = Inl first_move_must_cover_corner)"
    by blast
  then have pA: "place (Some ?g) ?rA
     = Inr (?g\<lparr>moves := [placement_move Blue ''V3'' [(0, 0), (0, 1), (1, 0)] 1], next_player_index := 1\<rparr>)"
    by (simp add: k gf tA isWithinBoard_def map_has_def placement_move_def to_int32_def)
  from first_move_must_cover_corner_rule[OF r fB]
  have "map_of PIECES (req_piece_key ?rB) = Some [(0, 0), (0, 1), (1, 0)] \<and>
        req_position ?rB = Some (1, 0) \<and>
        players ?g ! next_player_index ?g = req_player_color ?rB \<and>
        isWithinBoard (translate (transformShape [(0, 0), (0, 1), (1, 0)] (req_rotation ?rB) (req_flipped ?rB)) 1 0)
          (board_size ?g) \<and>
        \<not> list_ex (map_has (fst (placeSets (moves ?g) ([], (\<lambda>_. {})))))
            (translate (transformShape [(0, 0), (0, 1), (1, 0)] (req_rotation ?rB) (req_flipped ?rB)) 1 0)
        \<longrightarrow>
        (if starting_corner_spec (board_size ?g) (req_player_color ?rB)
              \<in> set (translate (transformShape [(0, 0), (0, 1), (1, 0)] (req_rotation ?rB) (req_flipped ?rB)) 1 0)
         then place (Some ?g) ?rB =
                Inr (?g\<lparr>moves := moves ?g @
                      [\<lparr>player_color = req_player_color ?rB,
                        piece_key = Some (req_piece_key ?rB),
                        rotation = Some (to_int32 (req_rotation ?rB)),
                        flipped = Some (req_flipped ?rB),
                        cells = Some (translate (transformShape [(0, 0), (0, 1), (1, 0)] (req_rotation ?rB) (req_flipped ?rB)) 1 0),
                        passed = False,
                        turn_number = length (moves ?g) + 1\<rparr>],
                      next_player_index := (next_player_index ?g + 1) mod length (players ?g)\<rparr>)
         else place (Some ?g) ?rB = Inl first_move_must_cover_corner)"
    by blast
  then have pB: "place (Some ?g) ?rB = Inl first_move_must_cover_corner"
    by (simp add: k gf tB isWithinBoard_def map_has_def)
  from r f c pA pB show ?thesis by blast
qed

end
